theory Spec2Isabelle
  imports Complex_Main "HOL-Library.Char_ord" "HOL-Library.List_Lexorder"
begin

section \<open>Python values and helpers\<close>

text \<open>
  The purchase-order pipeline of \<^verbatim>\<open>po-processor-app/backend\<close> is embedded function by
  function.  A finite Python float is modelled as an exact rational: rounding is outside the
  model (for whole numbers below \<open>2^53\<close> Python's arithmetic is exact as well).  Where the
  code can meet NaN or an infinity the number has the type \<open>pyfloat\<close> defined below.
  A raised exception is the \<open>Inl\<close> branch of a sum type.
\<close>

datatype py_error = ValueError | TypeError | ZeroDivisionError | OverflowError

text \<open>The values a cell of an extracted record can hold: \<^verbatim>\<open>None\<close>, a string or a number.\<close>

datatype pyval = PNone | PStr string | PNum rat

text \<open>A record of the extractor is a Python dict from column names to values.\<close>

type_synonym item = "string \<rightharpoonup> pyval"

text \<open>Python's \<^verbatim>\<open>str.isspace\<close> on the code points below 256.\<close>

definition is_space :: "char \<Rightarrow> bool" where
  "is_space c = (of_char c \<in> {9, 10, 11, 12, 13, 28, 29, 30, 31, 32, 133, 160 :: nat})"

definition strip :: "string \<Rightarrow> string" where
  "strip s = rev (dropWhile is_space (rev (dropWhile is_space s)))"

text \<open>Truth value of \<^verbatim>\<open>item.get(field)\<close>; a missing key gives \<^verbatim>\<open>None\<close>.\<close>

fun truthy :: "pyval option \<Rightarrow> bool" where
  "truthy None = False"
| "truthy (Some PNone) = False"
| "truthy (Some (PStr s)) = (s \<noteq> [])"
| "truthy (Some (PNum x)) = (x \<noteq> 0)"

text \<open>
  Truth value of \<^verbatim>\<open>str(item.get(field)).strip()\<close>: the text of a number or of
  \<^verbatim>\<open>None\<close> contains no white space, so only a string can strip to nothing.
\<close>

fun str_strip_truthy :: "pyval option \<Rightarrow> bool" where
  "str_strip_truthy (Some (PStr s)) = (strip s \<noteq> [])"
| "str_strip_truthy _ = True"

text \<open>
  \<^verbatim>\<open>float(v)\<close>.  Python's parser of float literals is a parameter \<open>pf\<close>
  (\<open>None\<close> where it raises \<^verbatim>\<open>ValueError\<close>).
\<close>

fun to_float :: "(string \<Rightarrow> rat option) \<Rightarrow> pyval \<Rightarrow> py_error + rat" where
  "to_float pf PNone = Inl TypeError"
| "to_float pf (PStr s) = (case pf s of None \<Rightarrow> Inl ValueError | Some x \<Rightarrow> Inr x)"
| "to_float pf (PNum x) = Inr x"

definition get_default :: "item \<Rightarrow> string \<Rightarrow> pyval \<Rightarrow> pyval" where
  "get_default it k d = (case it k of None \<Rightarrow> d | Some v \<Rightarrow> v)"

text \<open>\<^verbatim>\<open>int(x)\<close> on a float truncates towards zero.\<close>

definition py_int :: "rat \<Rightarrow> int" where
  "py_int x = (if 0 \<le> x then \<lfloor>x\<rfloor> else \<lceil>x\<rceil>)"

text \<open>\<^verbatim>\<open>x % n\<close> for a float \<open>x\<close> and a positive integer \<open>n\<close>.\<close>

definition py_mod :: "rat \<Rightarrow> nat \<Rightarrow> rat" where
  "py_mod x n = x - of_nat n * of_int \<lfloor>x / of_nat n\<rfloor>"

text \<open>\<^verbatim>\<open>str(n)\<close> of an integer, as an f-string renders it.\<close>

definition digit_char :: "nat \<Rightarrow> char" where
  "digit_char d = ''0123456789'' ! d"

function dec_nat :: "nat \<Rightarrow> string" where
  "dec_nat n = (if n < 10 then [digit_char n] else dec_nat (n div 10) @ [digit_char (n mod 10)])"
  by pat_completeness auto
termination
  by (relation "measure id") auto

declare dec_nat.simps [simp del]

definition dec :: "int \<Rightarrow> string" where
  "dec i = (if i < 0 then CHR ''-'' # dec_nat (nat (- i)) else dec_nat (nat i))"

section \<open>Line validator (\<^verbatim>\<open>PDFExtractor.validate_po_data\<close>)\<close>

definition required_fields :: "string list" where
  "required_fields = [''PO No.'', ''Store ID'', ''Internal Reference'']"

definition required_ok :: "item \<Rightarrow> string \<Rightarrow> bool" where
  "required_ok it field = (truthy (it field) \<and> str_strip_truthy (it field))"

text \<open>
  One pass of the loop body: \<open>None\<close> when the record is skipped (a required field fails,
  a conversion raises \<^verbatim>\<open>ValueError\<close> or \<^verbatim>\<open>TypeError\<close>, or a number is not positive),
  otherwise the record with both numeric cells overwritten by their float values.
\<close>

definition validate_item :: "(string \<Rightarrow> rat option) \<Rightarrow> item \<Rightarrow> item option" where
  "validate_item pf it =
     (if list_all (required_ok it) required_fields then
        (case to_float pf (get_default it ''# of Order'' (PNum 0)) of
           Inl e \<Rightarrow> None
         | Inr qty \<Rightarrow>
             (case to_float pf (get_default it ''Price'' (PNum 0)) of
                Inl e \<Rightarrow> None
              | Inr price \<Rightarrow>
                  if qty > 0 \<and> price > 0
                  then Some (it(''# of Order'' \<mapsto> PNum qty, ''Price'' \<mapsto> PNum price))
                  else None))
      else None)"

fun validate_loop :: "(string \<Rightarrow> rat option) \<Rightarrow> item list \<Rightarrow> item list \<Rightarrow> item list" where
  "validate_loop pf [] valid_data = valid_data"
| "validate_loop pf (it # rest) valid_data =
     (case validate_item pf it of
        None \<Rightarrow> validate_loop pf rest valid_data
      | Some it' \<Rightarrow> validate_loop pf rest (valid_data @ [it']))"

definition validate_po_data :: "(string \<Rightarrow> rat option) \<Rightarrow> item list \<Rightarrow> item list" where
  "validate_po_data pf data = (if data = [] then [] else validate_loop pf data [])"

subsection \<open>The validator's contract as the specification words it\<close>

text \<open>
  A required cell is present and non-empty: the key exists and its value is not
  \<^verbatim>\<open>None\<close>, not a blank string and not the number zero.
\<close>

fun spec_present_nonempty :: "pyval option \<Rightarrow> bool" where
  "spec_present_nonempty None = False"
| "spec_present_nonempty (Some PNone) = False"
| "spec_present_nonempty (Some (PStr s)) = (strip s \<noteq> [])"
| "spec_present_nonempty (Some (PNum x)) = (x \<noteq> 0)"

text \<open>A numeric cell coerces to a number strictly greater than zero.\<close>

fun spec_coerces_positive :: "(string \<Rightarrow> rat option) \<Rightarrow> pyval option \<Rightarrow> bool" where
  "spec_coerces_positive pf None = False"
| "spec_coerces_positive pf (Some v) = (case to_float pf v of Inl e \<Rightarrow> False | Inr x \<Rightarrow> 0 < x)"

definition spec_valid :: "(string \<Rightarrow> rat option) \<Rightarrow> item \<Rightarrow> bool" where
  "spec_valid pf it =
     (spec_present_nonempty (it ''PO No.'') \<and> spec_present_nonempty (it ''Store ID'') \<and>
      spec_present_nonempty (it ''Internal Reference'') \<and>
      spec_coerces_positive pf (it ''# of Order'') \<and> spec_coerces_positive pf (it ''Price''))"

text \<open>The number a cell coerces to (zero where it does not coerce).\<close>

definition float_of_cell :: "(string \<Rightarrow> rat option) \<Rightarrow> pyval option \<Rightarrow> rat" where
  "float_of_cell pf c =
     (case c of None \<Rightarrow> 0 | Some v \<Rightarrow> (case to_float pf v of Inl e \<Rightarrow> 0 | Inr x \<Rightarrow> x))"

text \<open>A kept record is returned with its two numeric cells replaced by the coerced numbers.\<close>

definition coerced :: "(string \<Rightarrow> rat option) \<Rightarrow> item \<Rightarrow> item" where
  "coerced pf it =
     it(''# of Order'' \<mapsto> PNum (float_of_cell pf (it ''# of Order'')),
        ''Price'' \<mapsto> PNum (float_of_cell pf (it ''Price'')))"

section \<open>Reference expander and order aggregator (\<^verbatim>\<open>DataTransformer.transform_data\<close>)\<close>

subsection \<open>Floats that leave the rationals\<close>

text \<open>
  The expander divides and multiplies with catalog cells that pandas may have turned into
  NaN, and by a numpy scalar that may be zero, so a computed number is a rational, NaN or an
  infinity.
\<close>

datatype pyfloat = Fin rat | NaN | PInf | NInf

text \<open>The infinity (or NaN) a nonzero (or zero) number gives when divided by zero.\<close>

definition signed_inf :: "rat \<Rightarrow> pyfloat" where
  "signed_inf a = (if 0 < a then PInf else if a < 0 then NInf else NaN)"

fun pf_sign :: "pyfloat \<Rightarrow> rat" where
  "pf_sign (Fin a) = sgn a"
| "pf_sign PInf = 1"
| "pf_sign NInf = - 1"
| "pf_sign NaN = 0"

text \<open>IEEE multiplication, as Python floats and numpy scalars do it.\<close>

fun pf_mul :: "pyfloat \<Rightarrow> pyfloat \<Rightarrow> pyfloat" where
  "pf_mul NaN y = NaN"
| "pf_mul x NaN = NaN"
| "pf_mul (Fin a) (Fin b) = Fin (a * b)"
| "pf_mul x y = signed_inf (pf_sign x * pf_sign y)"

text \<open>
  \<^verbatim>\<open>a / b\<close> where \<open>b\<close> is a numpy scalar: a zero divisor gives an infinity or NaN and a
  warning, no exception.
\<close>

fun np_div :: "rat \<Rightarrow> pyfloat \<Rightarrow> pyfloat" where
  "np_div a (Fin b) = (if b = 0 then signed_inf a else Fin (a / b))"
| "np_div a NaN = NaN"
| "np_div a PInf = Fin 0"
| "np_div a NInf = Fin 0"

text \<open>\<^verbatim>\<open>a / b\<close> where both are Python floats: a zero divisor raises.\<close>

fun py_fdiv :: "rat \<Rightarrow> pyfloat \<Rightarrow> py_error + pyfloat" where
  "py_fdiv a (Fin b) = (if b = 0 then Inl ZeroDivisionError else Inr (Fin (a / b)))"
| "py_fdiv a NaN = Inr NaN"
| "py_fdiv a PInf = Inr (Fin 0)"
| "py_fdiv a NInf = Inr (Fin 0)"

text \<open>\<^verbatim>\<open>int(x)\<close>: NaN and the infinities raise.\<close>

fun pf_int :: "pyfloat \<Rightarrow> py_error + int" where
  "pf_int (Fin a) = Inr (py_int a)"
| "pf_int NaN = Inl ValueError"
| "pf_int PInf = Inl OverflowError"
| "pf_int NInf = Inl OverflowError"

text \<open>\<^verbatim>\<open>x / n\<close> and \<^verbatim>\<open>x % n\<close> for a positive integer \<open>n\<close>.\<close>

fun pf_div_nat :: "pyfloat \<Rightarrow> nat \<Rightarrow> pyfloat" where
  "pf_div_nat (Fin a) n = Fin (a / of_nat n)"
| "pf_div_nat x n = x"

fun pf_mod_nat :: "pyfloat \<Rightarrow> nat \<Rightarrow> pyfloat" where
  "pf_mod_nat (Fin a) n = Fin (py_mod a n)"
| "pf_mod_nat x n = NaN"

text \<open>
  \<^verbatim>\<open>Series.sum()\<close> of a float column: NaN cells are skipped, opposite infinities give
  NaN.
\<close>

fun fin_values :: "pyfloat list \<Rightarrow> rat list" where
  "fin_values [] = []"
| "fin_values (Fin a # xs) = a # fin_values xs"
| "fin_values (x # xs) = fin_values xs"

definition pd_sum :: "pyfloat list \<Rightarrow> pyfloat" where
  "pd_sum xs =
     (if PInf \<in> set xs then (if NInf \<in> set xs then NaN else PInf)
      else if NInf \<in> set xs then NInf
      else Fin (sum_list (fin_values xs)))"

subsection \<open>Tables\<close>

text \<open>
  The value under \<^verbatim>\<open>x_studio_tt_om_int\<close> (units per order): in a product dict the key
  may be absent, or hold \<^verbatim>\<open>None\<close>, a number, or a float NaN.  The same type describes a
  cell of the catalog table, where \<open>Absent\<close> means that the table has no such column.
\<close>

datatype factor = Absent | Null | NotANumber | Num rat

record product =
  id_odoo :: int
  name :: string
  barcode :: "string option"
  default_code :: string
  x_studio_tt_om_int :: factor
  x_studio_canada_east_on_hand :: rat
  x_studio_ce_available :: rat
  x_studio_canada_west_on_hand :: rat
  x_studio_cw_available :: rat

text \<open>
  \<^verbatim>\<open>pd.DataFrame(product_variants)\<close> on the factor column.  No dict has the key: no
  column.  Every dict holds \<^verbatim>\<open>None\<close>: an object column of \<^verbatim>\<open>None\<close>.  Otherwise the
  column is numeric and every cell that is not a number (a \<^verbatim>\<open>None\<close>, a missing key)
  is NaN.
\<close>

fun frame_cell :: "factor \<Rightarrow> factor" where
  "frame_cell (Num r) = Num r"
| "frame_cell f = NotANumber"

definition products_frame :: "product list \<Rightarrow> product list" where
  "products_frame product_variants =
     (if list_all (\<lambda>p. x_studio_tt_om_int p = Absent) product_variants then product_variants
      else if list_all (\<lambda>p. x_studio_tt_om_int p = Null) product_variants then product_variants
      else map (\<lambda>p. p\<lparr>x_studio_tt_om_int := frame_cell (x_studio_tt_om_int p)\<rparr>)
             product_variants)"

text \<open>
  A row of the purchase-order table.  \<^verbatim>\<open>Store ID\<close> and \<^verbatim>\<open>PO No.\<close> went through
  \<^verbatim>\<open>pd.to_numeric(errors='coerce')\<close>: a whole number, or \<open>None\<close> for NaN.
\<close>

record po_row =
  Store_ID :: "int option"
  Store_Name :: string
  Order_Date :: string
  Delivery_Date :: string
  PO_No :: "int option"
  Internal_Reference :: string
  Num_of_Order :: rat
  Price :: rat

text \<open>
  How Python prints the whole numbers of the two numeric columns of the run's table.  The
  text depends on the dtype pandas gave the column (\<^verbatim>\<open>5\<close> in an integer column,
  \<^verbatim>\<open>5.0\<close> in a float column, which a single NaN in the column makes it), so both
  printers are parameters of the model.
\<close>

record printer =
  store_text :: "int \<Rightarrow> string"
  po_text :: "int \<Rightarrow> string"

text \<open>
  The dict \<^verbatim>\<open>line_data\<close> (one expanded line), with the column \<^verbatim>\<open>so_reference\<close> the
  aggregator adds.  \<open>'n\<close> is the type of the four computed numbers: \<open>pyfloat\<close> for what
  the expander computes, \<open>rat\<close> for a table in which all of them are finite.  The opaque
  \<^verbatim>\<open>product_image\<close> payload is left out.
\<close>

record 'n line =
  store_id :: "int option"
  store_name :: string
  order_date :: string
  delivery_date :: string
  po_number :: string
  internal_reference :: string
  product_id :: int
  product_name :: string
  line_barcode :: "string option"
  warehouse :: string
  units_per_order :: 'n
  original_qty :: rat
  po_unit_price :: rat
  product_uom_qty :: 'n
  price_unit :: 'n
  total_price :: 'n
  odoo_on_hand :: rat
  odoo_available :: rat
  store_on_hand :: "rat option"
  hist_avg_sales :: "rat option"
  flagged :: bool
  flag_reason :: "string option"
  shortage_details :: "string option"
  so_reference :: "string option"

record summary =
  sum_store_id :: int
  sum_store_name :: string
  official_name :: string
  sum_warehouse :: string
  po_count :: nat
  po_numbers :: string
  sum_so_reference :: string
  sum_order_date :: string
  sum_delivery_date :: string
  total_lines :: nat
  total_value :: pyfloat

record settings =
  cw_stores :: "int list"
  tt_store_names :: "int \<rightharpoonup> string"

subsection \<open>Reference expander\<close>

text \<open>\<^verbatim>\<open>int(store_id)\<close> raises on NaN and the handler answers \<^verbatim>\<open>'CE'\<close>.\<close>

definition get_warehouse_for_store :: "settings \<Rightarrow> int option \<Rightarrow> string" where
  "get_warehouse_for_store st sid =
     (case sid of
        None \<Rightarrow> ''CE''
      | Some s \<Rightarrow> if s \<in> set (cw_stores st) then ''CW'' else ''CE'')"

text \<open>
  \<^verbatim>\<open>product.get('x_studio_tt_om_int') or 1.0\<close>: \<^verbatim>\<open>None\<close> and zero are false, NaN is
  true.
\<close>

fun or_one :: "factor \<Rightarrow> pyfloat" where
  "or_one Absent = Fin 1"
| "or_one Null = Fin 1"
| "or_one NotANumber = NaN"
| "or_one (Num x) = (if x = 0 then Fin 1 else Fin x)"

text \<open>
  \<^verbatim>\<open>base = matched_products.iloc[0].get('x_studio_tt_om_int', 1.0)\<close> and
  \<^verbatim>\<open>total_ordered_qty * base\<close>: the default applies only when the table has no such
  column, and multiplying by \<^verbatim>\<open>None\<close> raises.
\<close>

fun times_base :: "rat \<Rightarrow> factor \<Rightarrow> py_error + pyfloat \<times> pyfloat" where
  "times_base q Absent = Inr (Fin 1, Fin (q * 1))"
| "times_base q Null = Inl TypeError"
| "times_base q NotANumber = Inr (NaN, NaN)"
| "times_base q (Num b) = Inr (Fin b, Fin (q * b))"

text \<open>
  \<^verbatim>\<open>str.replace(old, new)\<close> for a pattern \<open>old\<close> that is not empty: every
  occurrence, from the left, without overlap.
\<close>

function replace :: "string \<Rightarrow> string \<Rightarrow> string \<Rightarrow> string" where
  "replace old new s =
     (if s = [] then []
      else if old \<noteq> [] \<and> take (length old) s = old
      then new @ replace old new (drop (length old) s)
      else hd s # replace old new (tl s))"
  by pat_completeness auto
termination
  by (relation "measure (\<lambda>(old, new, s). length s)") auto

declare replace.simps [simp del]

text \<open>The text of a numeric cell inside an f-string.\<close>

definition str_cell :: "(int \<Rightarrow> string) \<Rightarrow> int option \<Rightarrow> string" where
  "str_cell txt c = (case c of None \<Rightarrow> ''nan'' | Some n \<Rightarrow> txt n)"

definition line_data ::
  "printer \<Rightarrow> settings \<Rightarrow> po_row \<Rightarrow> product \<Rightarrow> 'n \<Rightarrow> 'n \<Rightarrow> 'n \<Rightarrow> 'n \<Rightarrow> 'n line" where
  "line_data pr st row p upo units unit_price line_total =
     (let wh = get_warehouse_for_store st (Store_ID row) in
      \<lparr> store_id = Store_ID row,
        store_name = Store_Name row,
        order_date = Order_Date row,
        delivery_date = Delivery_Date row,
        po_number = (case PO_No row of None \<Rightarrow> [] | Some n \<Rightarrow> replace ''.0'' [] (po_text pr n)),
        internal_reference = Internal_Reference row,
        product_id = id_odoo p,
        product_name = name p,
        line_barcode = barcode p,
        warehouse = wh,
        units_per_order = upo,
        original_qty = Num_of_Order row,
        po_unit_price = Price row,
        product_uom_qty = units,
        price_unit = unit_price,
        total_price = line_total,
        odoo_on_hand = (if wh = ''CE'' then x_studio_canada_east_on_hand p
                        else x_studio_canada_west_on_hand p),
        odoo_available = (if wh = ''CE'' then x_studio_ce_available p
                          else x_studio_cw_available p),
        store_on_hand = Some 0,
        hist_avg_sales = Some 0,
        flagged = False,
        flag_reason = None,
        shortage_details = None,
        so_reference = None \<rparr>)"

text \<open>
  The integer unit count of the multi-match branch for the variant at position \<open>idx\<close>:
  \<^verbatim>\<open>int(total / n)\<close>, plus \<^verbatim>\<open>int(total % n)\<close> for the first variant.
\<close>

definition split_units :: "pyfloat \<Rightarrow> nat \<Rightarrow> nat \<Rightarrow> py_error + int" where
  "split_units total_units_bundle num_products idx =
     (case pf_int (pf_div_nat total_units_bundle num_products) of
        Inl e \<Rightarrow> Inl e
      | Inr units0 \<Rightarrow>
          if idx = 0 then
            (case pf_int (pf_mod_nat total_units_bundle num_products) of
               Inl e \<Rightarrow> Inl e
             | Inr r \<Rightarrow> Inr (units0 + r))
          else Inr units0)"

text \<open>
  The body of the inner loop, for the variant at position \<open>idx\<close> of the matches.  In the
  multi-match branch the divisor of the price comes from \<^verbatim>\<open>iloc[0]\<close> and is a numpy
  scalar; in the single-match branch it is the Python float of the loop variable.
\<close>

definition expand_product ::
  "printer \<Rightarrow> settings \<Rightarrow> po_row \<Rightarrow> product list \<Rightarrow> nat \<Rightarrow> product \<Rightarrow> py_error + pyfloat line" where
  "expand_product pr st row matched_products idx p =
     (let total_ordered_qty = Num_of_Order row;
          po_price = Price row;
          num_products = length matched_products;
          upo = or_one (x_studio_tt_om_int p)
      in if num_products > 1 then
           (case times_base total_ordered_qty (x_studio_tt_om_int (hd matched_products)) of
              Inl e \<Rightarrow> Inl e
            | Inr (base_units_per_case, total_units_bundle) \<Rightarrow>
                (case split_units total_units_bundle num_products idx of
                   Inl e \<Rightarrow> Inl e
                 | Inr units_this_product \<Rightarrow>
                     (let unit_price_per_item = np_div po_price base_units_per_case
                      in Inr (line_data pr st row p upo (Fin (of_int units_this_product))
                                unit_price_per_item
                                (pf_mul (Fin (of_int units_this_product)) unit_price_per_item)))))
         else
           (let upo1 = or_one (x_studio_tt_om_int p);
                total_units_bundle = pf_mul (Fin total_ordered_qty) upo1
            in case py_fdiv po_price upo1 of
                 Inl e \<Rightarrow> Inl e
               | Inr unit_price_per_item \<Rightarrow>
                   Inr (line_data pr st row p upo1 total_units_bundle unit_price_per_item
                          (pf_mul total_units_bundle unit_price_per_item))))"

fun expand_products ::
  "printer \<Rightarrow> settings \<Rightarrow> po_row \<Rightarrow> product list \<Rightarrow> nat \<Rightarrow> product list \<Rightarrow>
   py_error + pyfloat line list" where
  "expand_products pr st row matched idx [] = Inr []"
| "expand_products pr st row matched idx (p # ps) =
     (case expand_product pr st row matched idx p of
        Inl e \<Rightarrow> Inl e
      | Inr l \<Rightarrow>
          (case expand_products pr st row matched (Suc idx) ps of
             Inl e \<Rightarrow> Inl e
           | Inr ls \<Rightarrow> Inr (l # ls)))"

definition not_found_message :: "printer \<Rightarrow> po_row \<Rightarrow> string" where
  "not_found_message pr row =
     ''Product not found in Odoo: '' @ Internal_Reference row @ '' (Store: '' @
     str_cell (store_text pr) (Store_ID row) @ '', PO: '' @ str_cell (po_text pr) (PO_No row) @ '')''"

text \<open>One pass of the outer loop: the lines and the diagnostics the row appends.\<close>

definition expand_row ::
  "printer \<Rightarrow> settings \<Rightarrow> product list \<Rightarrow> po_row \<Rightarrow> py_error + pyfloat line list \<times> string list" where
  "expand_row pr st products_df row =
     (let matched_products =
            filter (\<lambda>p. default_code p = Internal_Reference row) products_df
      in if matched_products = [] then Inr ([], [not_found_message pr row])
         else (case expand_products pr st row matched_products 0 matched_products of
                 Inl e \<Rightarrow> Inl e
               | Inr ls \<Rightarrow> Inr (ls, [])))"

fun expand_lines ::
  "printer \<Rightarrow> settings \<Rightarrow> product list \<Rightarrow> po_row list \<Rightarrow>
   py_error + pyfloat line list \<times> string list" where
  "expand_lines pr st products_df [] = Inr ([], [])"
| "expand_lines pr st products_df (row # rows) =
     (case expand_row pr st products_df row of
        Inl e \<Rightarrow> Inl e
      | Inr (ls, es) \<Rightarrow>
          (case expand_lines pr st products_df rows of
             Inl e \<Rightarrow> Inl e
           | Inr (ls', es') \<Rightarrow> Inr (ls @ ls', es @ es')))"

subsection \<open>Order aggregator\<close>

fun join :: "string \<Rightarrow> string list \<Rightarrow> string" where
  "join sep [] = []"
| "join sep [x] = x"
| "join sep (x # y # ys) = x @ sep @ join sep (y # ys)"

definition so_ref :: "int \<Rightarrow> nat \<Rightarrow> string" where
  "so_ref starting_so_ref index = ''OATS00'' @ dec (starting_so_ref + int index)"

text \<open>\<^verbatim>\<open>sorted(order_line_details['store_id'].unique().tolist())\<close> after the NaN rows are dropped.\<close>

definition unique_stores :: "'n line list \<Rightarrow> int list" where
  "unique_stores ld = sort (remdups (List.map_filter store_id ld))"

definition dropna_store :: "'n line list \<Rightarrow> 'n line list" where
  "dropna_store ld = filter (\<lambda>l. store_id l \<noteq> None) ld"

text \<open>\<^verbatim>\<open>order_line_details[order_line_details['store_id'] == store_id]\<close>\<close>

definition store_group :: "int \<Rightarrow> 'n line list \<Rightarrow> 'n line list" where
  "store_group sid ld = filter (\<lambda>l. store_id l = Some sid) ld"

text \<open>The header of one destination.  \<^verbatim>\<open>iloc[0]\<close> on an empty group raises.\<close>

definition build_summary ::
  "printer \<Rightarrow> settings \<Rightarrow> int \<Rightarrow> pyfloat line list \<Rightarrow> nat \<Rightarrow> int \<Rightarrow> summary option" where
  "build_summary pr st starting_so_ref ld index sid =
     (let group = store_group sid ld;
          po_list = sort (remdups (map po_number group))
      in case group of
           [] \<Rightarrow> None
         | first # _ \<Rightarrow>
             Some \<lparr> sum_store_id = sid,
                    sum_store_name = store_name first,
                    official_name = (case tt_store_names st sid of
                                       None \<Rightarrow> ''Store '' @ store_text pr sid
                                     | Some n \<Rightarrow> n),
                    sum_warehouse = get_warehouse_for_store st (Some sid),
                    po_count = length po_list,
                    po_numbers = join '', '' po_list,
                    sum_so_reference = so_ref starting_so_ref index,
                    sum_order_date = order_date first,
                    sum_delivery_date = delivery_date first,
                    total_lines = length group,
                    total_value = pd_sum (map total_price group) \<rparr>)"

text \<open>
  The loop over \<^verbatim>\<open>enumerate(unique_stores)\<close>: it fills \<^verbatim>\<open>store_so_map\<close> and appends
  one header per destination; \<open>None\<close> stands for the \<^verbatim>\<open>IndexError\<close> of an empty group.
\<close>

fun summarise ::
  "printer \<Rightarrow> settings \<Rightarrow> int \<Rightarrow> pyfloat line list \<Rightarrow> nat \<Rightarrow> int list \<Rightarrow> (int \<rightharpoonup> string) \<Rightarrow>
   (summary list \<times> (int \<rightharpoonup> string)) option" where
  "summarise pr st S ld index [] store_so_map = Some ([], store_so_map)"
| "summarise pr st S ld index (sid # rest) store_so_map =
     (case build_summary pr st S ld index sid of
        None \<Rightarrow> None
      | Some h \<Rightarrow>
          (case summarise pr st S ld (Suc index) rest (store_so_map(sid \<mapsto> so_ref S index)) of
             None \<Rightarrow> None
           | Some (hs, m) \<Rightarrow> Some (h # hs, m)))"

text \<open>\<^verbatim>\<open>Series.map(store_so_map)\<close>: a key that is not in the dict gives NaN.\<close>

definition map_so :: "(int \<rightharpoonup> string) \<Rightarrow> int option \<Rightarrow> string option" where
  "map_so m sid = (case sid of None \<Rightarrow> None | Some s \<Rightarrow> m s)"

definition aggregate ::
  "printer \<Rightarrow> settings \<Rightarrow> int \<Rightarrow> pyfloat line list \<Rightarrow> (summary list \<times> pyfloat line list) option" where
  "aggregate pr st S order_line_details =
     (if order_line_details = [] then Some ([], [])
      else
        (let ld = dropna_store order_line_details in
         case summarise pr st S ld 0 (unique_stores ld) Map.empty of
           None \<Rightarrow> None
         | Some (summaries, store_so_map) \<Rightarrow>
             Some (summaries,
                   map (\<lambda>l. l\<lparr>so_reference := map_so store_so_map (store_id l)\<rparr>) ld)))"

datatype transform_error = Raised py_error | IndexError

definition transform_data ::
  "printer \<Rightarrow> settings \<Rightarrow> po_row list \<Rightarrow> product list \<Rightarrow> int \<Rightarrow>
   transform_error + summary list \<times> pyfloat line list \<times> string list" where
  "transform_data pr st po_df product_variants starting_so_ref =
     (if po_df = [] then Inr ([], [], [''No PO data to transform''])
      else if product_variants = [] then Inr ([], [], [''No product data fetched from Odoo''])
      else
        (case expand_lines pr st (products_frame product_variants) po_df of
           Inl e \<Rightarrow> Inl (Raised e)
         | Inr (expanded_lines, errors) \<Rightarrow>
             (case aggregate pr st starting_so_ref expanded_lines of
                None \<Rightarrow> Inl IndexError
              | Some (order_summaries, order_line_details) \<Rightarrow>
                  Inr (order_summaries, order_line_details, errors))))"

section \<open>Inventory allocator (\<^verbatim>\<open>InventoryOptimizer.optimize_allocations\<close>)\<close>

text \<open>
  The allocator reads the unit counts of the lines as numbers to add and compare; it is
  modelled on tables of lines whose computed numbers are finite (\<open>rat line\<close>).
\<close>

text \<open>
  A row of an external table (historical sales or store inventory): its key columns after
  the renaming and the casts, and its value column (\<open>None\<close> for NaN).
\<close>

record ext_row =
  ext_reference :: string
  ext_store_id :: int
  ext_value :: "rat option"

text \<open>\<^verbatim>\<open>pd.to_numeric(store_id, errors='coerce').fillna(0).astype(int)\<close>\<close>

definition coerce_store_id :: "rat line \<Rightarrow> rat line" where
  "coerce_store_id l = l\<lparr>store_id := Some (case store_id l of None \<Rightarrow> 0 | Some s \<Rightarrow> s)\<rparr>"

definition key_match :: "rat line \<Rightarrow> ext_row \<Rightarrow> bool" where
  "key_match l r = (ext_reference r = internal_reference l \<and> Some (ext_store_id r) = store_id l)"

text \<open>
  \<^verbatim>\<open>pd.merge(line_details, table, on=[...], how='left')\<close>: the left rows in their order,
  one copy per matching right row, and one copy with NaN where nothing matches.
\<close>

definition merge_left ::
  "(rat line \<Rightarrow> rat option \<Rightarrow> rat line) \<Rightarrow> rat line list \<Rightarrow> ext_row list \<Rightarrow> rat line list" where
  "merge_left upd ld tbl =
     concat (map (\<lambda>l. case filter (key_match l) tbl of
                        [] \<Rightarrow> [upd l None]
                      | m # ms \<Rightarrow> map (\<lambda>r. upd l (ext_value r)) (m # ms)) ld)"

definition fillna0 :: "rat option \<Rightarrow> rat option" where
  "fillna0 v = Some (case v of None \<Rightarrow> 0 | Some x \<Rightarrow> x)"

text \<open>
  The first half of the function: casts, the two merges and \<^verbatim>\<open>fillna(0)\<close>.  A column
  that is missing from the table is a column of \<open>None\<close> here, which the final
  \<^verbatim>\<open>fillna(0)\<close> turns into the zeros the \<^verbatim>\<open>else\<close> branches write.
\<close>

definition merge_external :: "rat line list \<Rightarrow> ext_row list \<Rightarrow> ext_row list \<Rightarrow> rat line list" where
  "merge_external line_details historical_sales store_inventory =
     (let ld1 = map coerce_store_id line_details;
          ld2 = (if historical_sales \<noteq> []
                 then merge_left (\<lambda>l v. l\<lparr>hist_avg_sales := v\<rparr>) ld1 historical_sales
                 else ld1);
          ld3 = (if store_inventory \<noteq> []
                 then merge_left (\<lambda>l v. l\<lparr>store_on_hand := v\<rparr>) ld2 store_inventory
                 else ld2)
      in map (\<lambda>l. l\<lparr>hist_avg_sales := fillna0 (hist_avg_sales l),
                     store_on_hand := fillna0 (store_on_hand l)\<rparr>) ld3)"

definition in_group :: "string \<Rightarrow> string \<Rightarrow> rat line \<Rightarrow> bool" where
  "in_group w ref l = (warehouse l = w \<and> internal_reference l = ref)"

text \<open>\<^verbatim>\<open>line_details.loc[group.index, ...] = ...\<close>: the rows of the group are rewritten.\<close>

definition update_group :: "string \<Rightarrow> string \<Rightarrow> (rat line \<Rightarrow> rat line) \<Rightarrow> rat line list \<Rightarrow> rat line list" where
  "update_group w ref f ld = map (\<lambda>l. if in_group w ref l then f l else l) ld"

definition truthy_str :: "string option \<Rightarrow> bool" where
  "truthy_str s = (case s of None \<Rightarrow> False | Some t \<Rightarrow> t \<noteq> [])"

definition shortage_text :: "rat \<Rightarrow> rat \<Rightarrow> string" where
  "shortage_text total_demand available_qty =
     ''D: '' @ dec (py_int total_demand) @ '', Ava: '' @ dec (py_int available_qty)"

text \<open>
  The body of the loop over the groups of one warehouse.  \<open>wh_lines\<close> is the selection
  taken before the loop; \<open>fmt\<close> renders a float inside an f-string.
\<close>

definition process_group ::
  "(rat \<Rightarrow> string) \<Rightarrow> rat line list \<Rightarrow> string \<Rightarrow> string \<Rightarrow> rat line list \<Rightarrow> rat line list" where
  "process_group fmt wh_lines w ref ld =
     (case filter (\<lambda>l. internal_reference l = ref) wh_lines of
        [] \<Rightarrow> ld
      | first # rest \<Rightarrow>
          (let total_demand = sum_list (map product_uom_qty (first # rest));
               available_qty = odoo_available first;
               on_hand_qty = odoo_on_hand first
           in if on_hand_qty \<le> 0 then
                update_group w ref (\<lambda>l. l\<lparr>flagged := True, flag_reason := Some ''0/- On Hand''\<rparr>) ld
              else if total_demand > available_qty then
                (if available_qty \<le> 0 then
                   (let extra_msg = ''Available: '' @ fmt available_qty;
                        current_reason = (case filter (in_group w ref) ld of
                                            [] \<Rightarrow> None | f # _ \<Rightarrow> flag_reason f);
                        reason = (if truthy_str current_reason
                                  then the current_reason @ '', '' @ extra_msg
                                  else ''Negative Available: '' @ fmt available_qty)
                    in update_group w ref (\<lambda>l. l\<lparr>flagged := True, flag_reason := Some reason\<rparr>) ld)
                 else
                   update_group w ref
                     (\<lambda>l. l\<lparr>flag_reason := Some ''Shortage'',
                            shortage_details := Some (shortage_text total_demand available_qty)\<rparr>) ld)
              else ld))"

definition process_warehouse :: "(rat \<Rightarrow> string) \<Rightarrow> string \<Rightarrow> rat line list \<Rightarrow> rat line list" where
  "process_warehouse fmt w ld =
     (let wh_lines = filter (\<lambda>l. warehouse l = w) ld
      in if wh_lines = [] then ld
         else fold (process_group fmt wh_lines w)
                (sort (remdups (map internal_reference wh_lines))) ld)"

definition optimize_allocations ::
  "(rat \<Rightarrow> string) \<Rightarrow> rat line list \<Rightarrow> ext_row list \<Rightarrow> ext_row list \<Rightarrow>
   rat line list \<times> string list" where
  "optimize_allocations fmt line_details historical_sales store_inventory =
     (if line_details = [] then (line_details, [])
      else (fold (process_warehouse fmt) [''CE'', ''CW'']
              (merge_external line_details historical_sales store_inventory), []))"

section \<open>Notions the statements and proofs use\<close>

subsection \<open>Reading an order reference back\<close>

text \<open>
  The inverse of \<^verbatim>\<open>str(n)\<close>: the number a decimal text denotes, and the number behind
  the six characters \<^verbatim>\<open>OATS00\<close> of an order reference.
\<close>

definition digit_val :: "char \<Rightarrow> nat" where
  "digit_val c = of_char c - 48"

definition undec_nat :: "string \<Rightarrow> nat" where
  "undec_nat s = foldl (\<lambda>a c. 10 * a + digit_val c) 0 s"



subsection \<open>Calendar order of the date texts\<close>

text \<open>
  The specification speaks of the earliest date.  The extractor keeps dates as the text
  \<^verbatim>\<open>month/day/year\<close> it read, so "earlier" is the order of (year, month, day).
\<close>

fun split_on :: "char \<Rightarrow> string \<Rightarrow> string list" where
  "split_on c [] = [[]]"
| "split_on c (x # xs) =
     (if x = c then [] # split_on c xs
      else (case split_on c xs of [] \<Rightarrow> [[x]] | w # ws \<Rightarrow> (x # w) # ws))"

definition date_key :: "string \<Rightarrow> (nat \<times> nat \<times> nat) option" where
  "date_key s =
     (case split_on CHR ''/'' s of
        [m, d, y] \<Rightarrow> Some (undec_nat y, undec_nat m, undec_nat d)
      | _ \<Rightarrow> None)"

definition spec_earlier :: "string \<Rightarrow> string \<Rightarrow> bool" where
  "spec_earlier a b =
     (case (date_key a, date_key b) of
        (Some (y, m, d), Some (y', m', d')) \<Rightarrow>
          y < y' \<or> (y = y' \<and> (m < m' \<or> (m = m' \<and> d < d')))
      | _ \<Rightarrow> False)"

subsection \<open>What the allocator may and may not touch\<close>

text \<open>
  The number of rows a left merge makes of a line: one per matching row of the table, and
  one when nothing matches (or the table is empty and no merge happens).
\<close>

definition match_count :: "ext_row list \<Rightarrow> rat line \<Rightarrow> nat" where
  "match_count tbl l = max 1 (length (filter (key_match (coerce_store_id l)) tbl))"

text \<open>
  A line without the columns the allocator writes: the cast destination id, the two merged
  columns and the three annotations.
\<close>

definition frame :: "rat line \<Rightarrow> rat line" where
  "frame l = l\<lparr>store_id := None, store_on_hand := None, hist_avg_sales := None,
               flagged := False, flag_reason := None, shortage_details := None\<rparr>"

text \<open>A line without its three annotations, and the relation one pass of the group loop keeps.\<close>

definition core :: "rat line \<Rightarrow> rat line" where
  "core l = l\<lparr>flagged := False, flag_reason := None, shortage_details := None\<rparr>"

definition rel_step :: "string \<Rightarrow> string \<Rightarrow> (rat line \<Rightarrow> rat line) \<Rightarrow> rat line \<Rightarrow> rat line \<Rightarrow> bool" where
  "rel_step w ref F a b = (core b = core a \<and> (in_group w ref a \<longrightarrow> b = F a))"

definition mark_shortage :: "rat \<Rightarrow> rat \<Rightarrow> rat line \<Rightarrow> rat line" where
  "mark_shortage total_demand available_qty l =
     l\<lparr>flag_reason := Some ''Shortage'',
       shortage_details := Some (shortage_text total_demand available_qty)\<rparr>"

subsection \<open>The factor of a bundle\<close>

text \<open>
  The number the expander multiplies the ordered quantity with when the first matched
  variant's factor cell is a number or the default applies: the number in the cell, except
  that with a single match a zero counts as 1; and 1 where the table has no factor column or
  the cell holds \<^verbatim>\<open>None\<close>.
\<close>

definition effective_factor :: "bool \<Rightarrow> factor \<Rightarrow> rat" where
  "effective_factor single f =
     (case f of Num x \<Rightarrow> (if single \<and> x = 0 then 1 else x) | _ \<Rightarrow> 1)"

subsection \<open>Concrete inputs\<close>

text \<open>
  A configuration with one western store, catalog variants and order rows to run the
  pipeline on, the printers of a table whose numeric columns are integer columns, and a
  float renderer for the f-strings.
\<close>

definition ex_pr :: printer where
  "ex_pr = \<lparr> store_text = dec, po_text = dec \<rparr>"

definition ex_settings :: settings where
  "ex_settings = \<lparr> cw_stores = [9], tt_store_names = [5 \<mapsto> ''Downtown''] \<rparr>"

definition ex_variant :: "int \<Rightarrow> string \<Rightarrow> factor \<Rightarrow> product" where
  "ex_variant i ref f =
     \<lparr> id_odoo = i, name = ''Item'', barcode = None, default_code = ref, x_studio_tt_om_int = f,
       x_studio_canada_east_on_hand = 100, x_studio_ce_available = 100,
       x_studio_canada_west_on_hand = 100, x_studio_cw_available = 100 \<rparr>"

definition ex_row :: "int \<Rightarrow> int \<Rightarrow> string \<Rightarrow> string \<Rightarrow> rat \<Rightarrow> rat \<Rightarrow> po_row" where
  "ex_row sid po ref date q price =
     \<lparr> Store_ID = Some sid, Store_Name = ''T&T'', Order_Date = date, Delivery_Date = date,
       PO_No = Some po, Internal_Reference = ref, Num_of_Order = q, Price = price \<rparr>"

definition ex_fmt :: "rat \<Rightarrow> string" where
  "ex_fmt x = dec (py_int x)"

text \<open>Two lines of destination 5; the second order carries the earlier dates.\<close>

definition ex_lines_dates :: "pyfloat line list" where
  "ex_lines_dates =
     [line_data ex_pr ex_settings (ex_row 5 1001 ''R1'' ''02/15/2024'' 2 24)
        (ex_variant 1 ''R1'' (Num 12)) (Fin 12) (Fin 24) (Fin 2) (Fin 48),
      line_data ex_pr ex_settings (ex_row 5 1002 ''R1'' ''01/10/2024'' 1 24)
        (ex_variant 1 ''R1'' (Num 12)) (Fin 12) (Fin 12) (Fin 2) (Fin 24)]"


text \<open>
  Two eastern lines of reference R4 asking for 30 and 20 units, with 100 on hand and 30
  available; and one row of historical sales, for destination 5.
\<close>

definition ex_lines_short :: "rat line list" where
  "ex_lines_short =
     [line_data ex_pr ex_settings (ex_row 5 1001 ''R4'' ''01/10/2024'' 30 1)
        ((ex_variant 4 ''R4'' (Num 1))\<lparr>x_studio_ce_available := 30\<rparr>) 1 30 1 30,
      line_data ex_pr ex_settings (ex_row 7 1002 ''R4'' ''01/10/2024'' 20 1)
        ((ex_variant 4 ''R4'' (Num 1))\<lparr>x_studio_ce_available := 30\<rparr>) 1 20 1 20]"

definition ex_hist :: ext_row where
  "ex_hist = \<lparr> ext_reference = ''R4'', ext_store_id = 5, ext_value = Some 50 \<rparr>"

section \<open>Proofs\<close>

subsection \<open>Validator\<close>

lemma strip_Nil: "strip [] = []"
  by (simp add: strip_def)

lemma required_ok_spec: "required_ok it f = spec_present_nonempty (it f)"
proof (cases "it f")
  case None
  then show ?thesis by (simp add: required_ok_def)
next
  case (Some v)
  then show ?thesis
    by (cases v) (auto simp: required_ok_def strip_Nil)
qed

lemma validate_item_spec:
  "validate_item pf it = (if spec_valid pf it then Some (coerced pf it) else None)"
proof -
  have req: "list_all (required_ok it) required_fields =
      (spec_present_nonempty (it ''PO No.'') \<and> spec_present_nonempty (it ''Store ID'') \<and>
       spec_present_nonempty (it ''Internal Reference''))"
    by (simp add: required_fields_def required_ok_spec)
  show ?thesis
  proof (cases "it ''# of Order''")
    case qn: None
    show ?thesis
      by (cases "it ''Price''")
         (simp_all add: validate_item_def req spec_valid_def get_default_def qn
            split: sum.splits)
  next
    case qs: (Some q)
    show ?thesis
    proof (cases "it ''Price''")
      case None
      then show ?thesis
        by (simp add: validate_item_def req spec_valid_def get_default_def qs
            split: sum.splits)
    next
      case (Some p)
      then show ?thesis
        by (simp add: validate_item_def req spec_valid_def get_default_def qs coerced_def
            float_of_cell_def split: sum.splits)
    qed
  qed
qed

lemma validate_loop_spec:
  "validate_loop pf data acc = acc @ map (coerced pf) (filter (spec_valid pf) data)"
  by (induction data arbitrary: acc) (simp_all add: validate_item_spec)

text \<open>
  C9.  For every input list, the validator returns exactly the records whose order number,
  destination id and reference code are present and non-empty and whose ordered quantity
  and price both coerce to numbers greater than zero, each with its two numeric cells
  coerced, in their original relative order; every other record is dropped.
\<close>

theorem validate_po_data_postcondition:
  "validate_po_data pf data = map (coerced pf) (filter (spec_valid pf) data)"
  by (simp add: validate_po_data_def validate_loop_spec)

subsection \<open>Arithmetic of the split\<close>

lemma py_int_of_int: "py_int (of_int k) = k"
  by (simp add: py_int_def)

lemma floor_div_nat: "\<lfloor>(of_int k :: rat) / of_nat n\<rfloor> = k div int n"
proof -
  have "(of_nat n :: rat) = of_int (int n)" by simp
  then show ?thesis by (simp only: floor_divide_of_int_eq)
qed

lemma py_int_div: "0 \<le> k \<Longrightarrow> py_int (of_int k / of_nat n) = k div int n"
  by (simp add: py_int_def floor_div_nat)

lemma py_mod_of_int: "py_mod (of_int k) n = of_int (k mod int n)"
proof -
  have "k mod int n = k - int n * (k div int n)"
    by (simp add: minus_mult_div_eq_mod)
  then show ?thesis
    by (simp add: py_mod_def floor_div_nat)
qed

lemma py_int_mod: "py_int (py_mod (of_int k) n) = k mod int n"
  by (simp only: py_mod_of_int py_int_of_int)

subsection \<open>Expander: the inner loop\<close>

lemma line_data_sel [simp]:
  "product_uom_qty (line_data pr st row p upo units price t) = units"
  "price_unit (line_data pr st row p upo units price t) = price"
  "units_per_order (line_data pr st row p upo units price t) = upo"
  "total_price (line_data pr st row p upo units price t) = t"
  by (simp_all add: line_data_def Let_def)

lemma or_one_effective:
  "f \<noteq> NotANumber \<Longrightarrow> or_one f = Fin (effective_factor True f) \<and> effective_factor True f \<noteq> 0"
  by (cases f) (simp_all add: effective_factor_def)

lemma times_base_effective:
  "f \<noteq> NotANumber \<Longrightarrow> f \<noteq> Null \<Longrightarrow>
   times_base q f = Inr (Fin (effective_factor False f), Fin (q * effective_factor False f))"
  by (cases f) (simp_all add: effective_factor_def)

lemma effective_factor_multi_nonzero:
  "f \<noteq> Num 0 \<Longrightarrow> effective_factor False f \<noteq> 0"
  by (cases f) (simp_all add: effective_factor_def)

lemma expand_product_single:
  assumes "length matched \<le> 1" and f: "x_studio_tt_om_int p \<noteq> NotANumber"
  shows "expand_product pr st row matched idx p =
    Inr (line_data pr st row p (Fin (effective_factor True (x_studio_tt_om_int p)))
          (Fin (Num_of_Order row * effective_factor True (x_studio_tt_om_int p)))
          (Fin (Price row / effective_factor True (x_studio_tt_om_int p)))
          (Fin (Num_of_Order row * effective_factor True (x_studio_tt_om_int p) *
                (Price row / effective_factor True (x_studio_tt_om_int p)))))"
proof -
  from assms(1) have "\<not> 1 < length matched" by simp
  then show ?thesis
    using or_one_effective[OF f] by (simp add: expand_product_def Let_def)
qed

lemma expand_product_single_nan:
  assumes "length matched \<le> 1" and f: "x_studio_tt_om_int p = NotANumber"
  shows "expand_product pr st row matched idx p = Inr (line_data pr st row p NaN NaN NaN NaN)"
proof -
  from assms(1) have "\<not> 1 < length matched" by simp
  then show ?thesis
    by (simp add: expand_product_def Let_def f)
qed

lemma split_units_fin:
  "split_units (Fin T) n idx =
     Inr (py_int (T / of_nat n) + (if idx = 0 then py_int (py_mod T n) else 0))"
  by (simp add: split_units_def)

lemma expand_product_multi:
  assumes n: "1 < length matched"
    and tb: "times_base (Num_of_Order row) (x_studio_tt_om_int (hd matched)) = Inr (B, Fin T)"
  shows "expand_product pr st row matched idx p =
    Inr (line_data pr st row p (or_one (x_studio_tt_om_int p))
          (Fin (of_int (py_int (T / of_nat (length matched)) +
                   (if idx = 0 then py_int (py_mod T (length matched)) else 0))))
          (np_div (Price row) B)
          (pf_mul (Fin (of_int (py_int (T / of_nat (length matched)) +
                   (if idx = 0 then py_int (py_mod T (length matched)) else 0))))
             (np_div (Price row) B)))"
  using n by (simp add: expand_product_def Let_def tb split_units_fin)

lemma expand_products_multi:
  assumes n: "1 < length matched"
    and tb: "times_base (Num_of_Order row) (x_studio_tt_om_int (hd matched)) = Inr (B, Fin T)"
  shows "expand_products pr st row matched idx ps =
    Inr (map (\<lambda>(i, p). line_data pr st row p (or_one (x_studio_tt_om_int p))
          (Fin (of_int (py_int (T / of_nat (length matched)) +
                   (if i = 0 then py_int (py_mod T (length matched)) else 0))))
          (np_div (Price row) B)
          (pf_mul (Fin (of_int (py_int (T / of_nat (length matched)) +
                   (if i = 0 then py_int (py_mod T (length matched)) else 0))))
             (np_div (Price row) B))) (enumerate idx ps))"
proof (induction ps arbitrary: idx)
  case Nil
  show ?case by simp
next
  case (Cons p ps)
  show ?case
    by (simp add: expand_product_multi[OF n tb] Cons.IH)
qed

lemma sum_rest:
  "0 < idx \<Longrightarrow> sum_list (map (\<lambda>(i, p). (of_int (d + (if i = 0 then m else 0)) :: rat)) (enumerate idx ps))
     = of_nat (length ps) * of_int d"
  by (induction ps arbitrary: idx) (simp_all add: algebra_simps)

subsection \<open>Expander: rows and the whole run\<close>

lemma expand_row_matched:
  assumes "filter (\<lambda>p. default_code p = Internal_Reference row) cat = p # ps"
  shows "expand_row pr st cat row =
     (case expand_products pr st row (p # ps) 0 (p # ps) of
        Inl e \<Rightarrow> Inl e | Inr ls \<Rightarrow> Inr (ls, []))"
  by (simp add: expand_row_def assms Let_def)

lemma expand_row_single:
  assumes "filter (\<lambda>p. default_code p = Internal_Reference row) cat = [p]"
    and f: "x_studio_tt_om_int p \<noteq> NotANumber"
  shows "expand_row pr st cat row =
     Inr ([line_data pr st row p (Fin (effective_factor True (x_studio_tt_om_int p)))
          (Fin (Num_of_Order row * effective_factor True (x_studio_tt_om_int p)))
          (Fin (Price row / effective_factor True (x_studio_tt_om_int p)))
          (Fin (Num_of_Order row * effective_factor True (x_studio_tt_om_int p) *
                (Price row / effective_factor True (x_studio_tt_om_int p))))], [])"
  by (simp add: expand_row_matched[OF assms(1)] expand_product_single[OF _ f])

lemma expand_row_single_nan:
  assumes "filter (\<lambda>p. default_code p = Internal_Reference row) cat = [p]"
    and f: "x_studio_tt_om_int p = NotANumber"
  shows "expand_row pr st cat row = Inr ([line_data pr st row p NaN NaN NaN NaN], [])"
  by (simp add: expand_row_matched[OF assms(1)] expand_product_single_nan[OF _ f])

lemma expand_row_multi:
  assumes m: "filter (\<lambda>p. default_code p = Internal_Reference row) cat = p # q # qs"
    and tb: "times_base (Num_of_Order row) (x_studio_tt_om_int p) = Inr (B, Fin T)"
  shows "expand_row pr st cat row =
     Inr (map (\<lambda>(i, p'). line_data pr st row p' (or_one (x_studio_tt_om_int p'))
          (Fin (of_int (py_int (T / of_nat (length (p # q # qs))) +
                   (if i = 0 then py_int (py_mod T (length (p # q # qs))) else 0))))
          (np_div (Price row) B)
          (pf_mul (Fin (of_int (py_int (T / of_nat (length (p # q # qs))) +
                   (if i = 0 then py_int (py_mod T (length (p # q # qs))) else 0))))
             (np_div (Price row) B))) (enumerate 0 (p # q # qs)), [])"
proof -
  have n: "1 < length (p # q # qs)" by simp
  have tb': "times_base (Num_of_Order row) (x_studio_tt_om_int (hd (p # q # qs))) = Inr (B, Fin T)"
    using tb by simp
  show ?thesis
    by (simp only: expand_row_matched[OF m] expand_products_multi[OF n tb'] sum.case)
qed

text \<open>
  With several matches and a first factor that is \<^verbatim>\<open>None\<close> (the whole column is) or NaN
  (a \<^verbatim>\<open>None\<close> or a missing key beside numbers) the row raises: \<^verbatim>\<open>TypeError\<close> in the
  multiplication, \<^verbatim>\<open>ValueError\<close> in \<^verbatim>\<open>int()\<close>.
\<close>

lemma expand_row_multi_raises:
  assumes m: "filter (\<lambda>p. default_code p = Internal_Reference row) cat = p # q # qs"
  shows "x_studio_tt_om_int p = Null \<Longrightarrow> expand_row pr st cat row = Inl TypeError"
    and "x_studio_tt_om_int p = NotANumber \<Longrightarrow> expand_row pr st cat row = Inl ValueError"
  by (simp_all add: expand_row_matched[OF m] expand_product_def Let_def split_units_def)

lemma sum_first:
  "sum_list (map (\<lambda>(i, p). (of_int (d + (if i = 0 then m else 0)) :: rat)) (enumerate 0 (x # xs)))
     = of_int (int (length (x # xs)) * d + m)"
proof -
  have "sum_list (map (\<lambda>(i, p). (of_int (d + (if i = 0 then m else 0)) :: rat)) (enumerate 0 (x # xs)))
      = of_int (d + m) +
        sum_list (map (\<lambda>(i, p). (of_int (d + (if i = 0 then m else 0)) :: rat)) (enumerate (Suc 0) xs))"
    by (simp del: of_int_add)
  also have "sum_list (map (\<lambda>(i, p). (of_int (d + (if i = 0 then m else 0)) :: rat)) (enumerate (Suc 0) xs))
      = of_nat (length xs) * of_int d"
    by (rule sum_rest) simp
  finally show ?thesis by (simp add: algebra_simps)
qed

text \<open>
  C1 (as amended).  A row whose reference matches N variants of the catalog table, the
  first of them \<open>p\<close> with a factor cell that is not NaN.  The bundle total is the ordered
  quantity times the factor: the number in the cell, or 1 where the table has no factor
  column, or, with N = 1, where the cell is \<^verbatim>\<open>None\<close> or zero.  When N is 1, or the cell
  is not \<^verbatim>\<open>None\<close> and the bundle total is a whole number that is not negative, the
  expander returns N lines and no diagnostic; their unit counts are finite and sum to the
  bundle total exactly, every line but the first receives the floor of total / N, and the
  first receives that floor plus the remainder.
\<close>

theorem expansion_conservation:
  assumes m: "filter (\<lambda>p. default_code p = Internal_Reference row) (products_frame pv) = p # ps"
    and f: "x_studio_tt_om_int p \<noteq> NotANumber"
    and multi: "ps \<noteq> [] \<Longrightarrow> x_studio_tt_om_int p \<noteq> Null \<and>
        (\<exists>k\<ge>0. Num_of_Order row * effective_factor (ps = []) (x_studio_tt_om_int p) = of_int k)"
  shows "\<exists>ls us. expand_row pr st (products_frame pv) row = Inr (ls, []) \<and>
      length ls = Suc (length ps) \<and> map product_uom_qty ls = map Fin us \<and>
      sum_list us = Num_of_Order row * effective_factor (ps = []) (x_studio_tt_om_int p) \<and>
      us ! 0 =
        of_int \<lfloor>Num_of_Order row * effective_factor (ps = []) (x_studio_tt_om_int p) /
                 of_nat (Suc (length ps))\<rfloor> +
        py_mod (Num_of_Order row * effective_factor (ps = []) (x_studio_tt_om_int p))
          (Suc (length ps)) \<and>
      (\<forall>i. 0 < i \<and> i < length us \<longrightarrow> us ! i =
        of_int \<lfloor>Num_of_Order row * effective_factor (ps = []) (x_studio_tt_om_int p) /
                 of_nat (Suc (length ps))\<rfloor>)"
proof (cases ps)
  case Nil
  with m have m1: "filter (\<lambda>p. default_code p = Internal_Reference row) (products_frame pv) = [p]"
    by simp
  let ?T = "Num_of_Order row * effective_factor True (x_studio_tt_om_int p)"
  show ?thesis
    unfolding expand_row_single[OF m1 f]
    by (rule exI[of _ "[line_data pr st row p (Fin (effective_factor True (x_studio_tt_om_int p)))
          (Fin ?T) (Fin (Price row / effective_factor True (x_studio_tt_om_int p)))
          (Fin (?T * (Price row / effective_factor True (x_studio_tt_om_int p))))]"],
        rule exI[of _ "[?T]"]) (simp add: Nil py_mod_def)
next
  case (Cons q qs)
  then have ne: "ps \<noteq> []" by simp
  then have e: "(ps = []) = False" by simp
  from multi[OF ne] obtain k where
    fn: "x_studio_tt_om_int p \<noteq> Null"
    and k: "0 \<le> k"
    and T: "Num_of_Order row * effective_factor False (x_studio_tt_om_int p) = of_int k"
    unfolding e by blast
  let ?b = "effective_factor False (x_studio_tt_om_int p)"
  let ?N = "length (p # q # qs)"
  from times_base_effective[OF f fn, of "Num_of_Order row"]
  have tb: "times_base (Num_of_Order row) (x_studio_tt_om_int p) = Inr (Fin ?b, Fin (of_int k))"
    by (simp only: T)
  from m Cons
  have m2: "filter (\<lambda>p. default_code p = Internal_Reference row) (products_frame pv) = p # q # qs"
    by simp
  let ?us = "map (\<lambda>(i, p'). (of_int (k div int ?N + (if i = 0 then k mod int ?N else 0)) :: rat))
        (enumerate 0 (p # q # qs))"
  let ?ls = "map (\<lambda>(i, p'). line_data pr st row p' (or_one (x_studio_tt_om_int p'))
          (Fin (of_int (k div int ?N + (if i = 0 then k mod int ?N else 0))))
          (np_div (Price row) (Fin ?b))
          (pf_mul (Fin (of_int (k div int ?N + (if i = 0 then k mod int ?N else 0))))
             (np_div (Price row) (Fin ?b)))) (enumerate 0 (p # q # qs))"
  have row: "expand_row pr st (products_frame pv) row = Inr (?ls, [])"
    using expand_row_multi[OF m2 tb, of pr st] k
    by (simp only: py_int_div py_int_mod)
  have len: "length ?ls = Suc (length ps)" by (simp add: Cons)
  have qty: "map product_uom_qty ?ls = map Fin ?us"
    by (simp add: case_prod_unfold comp_def del: enumerate_simps)
  have sum: "sum_list ?us = of_int k"
    by (simp only: sum_first mult_div_mod_eq)
  have fl: "\<lfloor>(of_int k :: rat) / of_nat (Suc (length ps))\<rfloor> = k div int ?N"
    by (simp only: floor_div_nat Cons length_Cons)
  have first: "?us ! 0 = of_int (k div int ?N) + py_mod (of_int k) (Suc (length ps))"
    by (simp add: py_mod_of_int Cons)
  have rest: "\<forall>i. 0 < i \<and> i < length ?us \<longrightarrow> ?us ! i = of_int (k div int ?N)"
  proof (intro allI impI)
    fix i assume i: "0 < i \<and> i < length ?us"
    then have "i < length (enumerate 0 (p # q # qs))" by simp
    then have "?us ! i =
        (\<lambda>(i, p'). (of_int (k div int ?N + (if i = 0 then k mod int ?N else 0)) :: rat))
          (enumerate 0 (p # q # qs) ! i)"
      by (rule nth_map)
    also have "enumerate 0 (p # q # qs) ! i = (i, (p # q # qs) ! i)"
      using i by (simp add: nth_enumerate_eq del: enumerate_simps)
    finally show "?us ! i = of_int (k div int ?N)"
      using i by simp
  qed
  show ?thesis
    unfolding e T fl
    apply (rule exI[of _ ?ls], rule exI[of _ ?us])
    apply (intro conjI)
         apply (rule row)
        apply (rule len)
       apply (rule qty)
      apply (rule sum)
     apply (rule first)
    apply (rule rest)
    done
qed

text \<open>
  C2 (as amended).  A row whose reference matches more than one variant of the catalog
  table, the first with a factor cell that is neither \<^verbatim>\<open>None\<close>, NaN nor zero: every
  resulting line carries the same unit price, the line price divided by the first
  variant's factor (1 where the table has no factor column).
\<close>

theorem multi_variant_price_basis:
  assumes m: "filter (\<lambda>p. default_code p = Internal_Reference row) (products_frame pv) = p # q # qs"
    and f: "x_studio_tt_om_int p \<noteq> Null" "x_studio_tt_om_int p \<noteq> NotANumber"
      "x_studio_tt_om_int p \<noteq> Num 0"
  shows "\<exists>ls. expand_row pr st (products_frame pv) row = Inr (ls, []) \<and>
      length ls = length (p # q # qs) \<and>
      (\<forall>l \<in> set ls. price_unit l =
         Fin (Price row / effective_factor False (x_studio_tt_om_int p)))"
proof -
  note tb = times_base_effective[OF f(2) f(1), of "Num_of_Order row"]
  have b: "effective_factor False (x_studio_tt_om_int p) \<noteq> 0"
    by (rule effective_factor_multi_nonzero[OF f(3)])
  show ?thesis
    unfolding expand_row_multi[OF m tb]
    using b by (auto simp del: enumerate_simps)
qed

text \<open>
  A row whose reference matches exactly one variant always expands to one line: the divisor
  of the single-match branch is never zero.  When the factor cell is absent, \<^verbatim>\<open>None\<close> or
  zero, the line's factor is 1, its unit count the ordered quantity and its unit price the
  line price.  When the cell is NaN, which is what the catalog table holds for a
  \<^verbatim>\<open>None\<close> or a missing key beside the numbers of other products, the test
  \<^verbatim>\<open>or 1.0\<close> lets it through and factor, unit count, unit price and total are NaN.
\<close>

lemma single_match_factor:
  assumes m: "filter (\<lambda>p. default_code p = Internal_Reference row) cat = [p]"
  shows "\<exists>l. expand_row pr st cat row = Inr ([l], []) \<and>
      (x_studio_tt_om_int p \<in> {Absent, Null, Num 0} \<longrightarrow>
         units_per_order l = Fin 1 \<and> product_uom_qty l = Fin (Num_of_Order row) \<and>
         price_unit l = Fin (Price row) \<and> total_price l = Fin (Num_of_Order row * Price row)) \<and>
      (x_studio_tt_om_int p = NotANumber \<longrightarrow>
         units_per_order l = NaN \<and> product_uom_qty l = NaN \<and>
         price_unit l = NaN \<and> total_price l = NaN)"
proof (cases "x_studio_tt_om_int p = NotANumber")
  case True
  then show ?thesis
    unfolding expand_row_single_nan[OF m True] by simp
next
  case False
  show ?thesis
    unfolding expand_row_single[OF m False]
    using False by (auto simp: effective_factor_def)
qed

lemma products_frame_props:
  "length (products_frame pv) = length pv"
  "map default_code (products_frame pv) = map default_code pv"
  by (simp_all add: products_frame_def comp_def)

lemma expand_lines_append:
  "expand_lines pr st cat (xs @ ys) =
     (case expand_lines pr st cat xs of
        Inl e \<Rightarrow> Inl e
      | Inr (l1, e1) \<Rightarrow>
          (case expand_lines pr st cat ys of
             Inl e \<Rightarrow> Inl e
           | Inr (l2, e2) \<Rightarrow> Inr (l1 @ l2, e1 @ e2)))"
  by (induction xs) (auto split: sum.splits)

text \<open>
  C8 (as amended).  With a catalog that is not empty, a row whose reference matches no
  variant yields no line and exactly one diagnostic, which contains the reference; and the
  whole run returns what the rows before and after it yield, with that one diagnostic
  between theirs.
\<close>

theorem zero_match_diagnostic:
  assumes c: "pv \<noteq> []"
    and m: "filter (\<lambda>p. default_code p = Internal_Reference row) (products_frame pv) = []"
  shows "expand_row pr st (products_frame pv) row = Inr ([], [not_found_message pr row]) \<and>
    (\<exists>a b. not_found_message pr row = a @ Internal_Reference row @ b) \<and>
    transform_data pr st (pre @ row # post) pv S =
     (case expand_lines pr st (products_frame pv) pre of
        Inl e \<Rightarrow> Inl (Raised e)
      | Inr (l1, e1) \<Rightarrow>
          (case expand_lines pr st (products_frame pv) post of
             Inl e \<Rightarrow> Inl (Raised e)
           | Inr (l2, e2) \<Rightarrow>
               (case aggregate pr st S (l1 @ l2) of
                  None \<Rightarrow> Inl IndexError
                | Some (hs, ds) \<Rightarrow> Inr (hs, ds, e1 @ not_found_message pr row # e2))))"
proof -
  have r: "expand_row pr st (products_frame pv) row = Inr ([], [not_found_message pr row])"
    by (simp add: expand_row_def m)
  have n: "\<exists>a b. not_found_message pr row = a @ Internal_Reference row @ b"
    unfolding not_found_message_def by blast
  have t: "transform_data pr st (pre @ row # post) pv S =
     (case expand_lines pr st (products_frame pv) pre of
        Inl e \<Rightarrow> Inl (Raised e)
      | Inr (l1, e1) \<Rightarrow>
          (case expand_lines pr st (products_frame pv) post of
             Inl e \<Rightarrow> Inl (Raised e)
           | Inr (l2, e2) \<Rightarrow>
               (case aggregate pr st S (l1 @ l2) of
                  None \<Rightarrow> Inl IndexError
                | Some (hs, ds) \<Rightarrow> Inr (hs, ds, e1 @ not_found_message pr row # e2))))"
    by (simp add: transform_data_def c expand_lines_append r split: sum.splits prod.splits)
  from r n t show ?thesis by blast
qed

subsection \<open>Decimal texts\<close>










subsection \<open>Aggregator: the header loop\<close>

lemma fin_values_map_Fin: "fin_values (map Fin xs) = xs"
  by (induction xs) simp_all

lemma pd_sum_fin: "pd_sum (map Fin xs) = Fin (sum_list xs)"
  by (auto simp: pd_sum_def fin_values_map_Fin)

lemma build_summary_some:
  assumes "\<exists>l \<in> set ld. store_id l = Some sid"
  shows "\<exists>h. build_summary pr st S ld index sid = Some h"
proof -
  from assms have "store_group sid ld \<noteq> []"
    by (simp add: store_group_def filter_empty_conv)
  then show ?thesis
    by (cases "store_group sid ld") (simp_all add: build_summary_def Let_def)
qed

lemma build_summary_fields:
  assumes "build_summary pr st S ld index sid = Some h"
  shows "sum_store_id h = sid" and "sum_so_reference h = so_ref S index"
    and "store_group sid ld \<noteq> []"
    and "sum_order_date h = order_date (hd (store_group sid ld))"
    and "sum_delivery_date h = delivery_date (hd (store_group sid ld))"
    and "po_numbers h = join '', '' (sort (remdups (map po_number (store_group sid ld))))"
    and "total_value h = pd_sum (map total_price (store_group sid ld))"
    and "total_lines h = length (store_group sid ld)"
  using assms
  by (auto simp: build_summary_def Let_def split: list.splits)

lemma summarise_spec:
  assumes "\<forall>sid \<in> set stores. \<exists>l \<in> set ld. store_id l = Some sid" and "distinct stores"
  shows "\<exists>hs m'. summarise pr st S ld idx stores m = Some (hs, m') \<and> length hs = length stores \<and>
      (\<forall>i < length stores. build_summary pr st S ld (idx + i) (stores ! i) = Some (hs ! i) \<and>
                            m' (stores ! i) = Some (so_ref S (idx + i))) \<and>
      (\<forall>s. s \<notin> set stores \<longrightarrow> m' s = m s)"
  using assms
proof (induction stores arbitrary: idx m)
  case Nil
  show ?case by simp
next
  case (Cons sid rest)
  from Cons.prems obtain h where h: "build_summary pr st S ld idx sid = Some h"
    using build_summary_some[of ld sid pr st S idx] by auto
  from Cons.prems have prem: "\<forall>sid \<in> set rest. \<exists>l \<in> set ld. store_id l = Some sid" "distinct rest"
    and ni: "sid \<notin> set rest" by simp_all
  from Cons.IH[OF prem, of "Suc idx" "m(sid \<mapsto> so_ref S idx)"] obtain hs m' where
    s: "summarise pr st S ld (Suc idx) rest (m(sid \<mapsto> so_ref S idx)) = Some (hs, m')"
    and len: "length hs = length rest"
    and each: "\<forall>i < length rest. build_summary pr st S ld (Suc idx + i) (rest ! i) = Some (hs ! i) \<and>
                            m' (rest ! i) = Some (so_ref S (Suc idx + i))"
    and other: "\<forall>s. s \<notin> set rest \<longrightarrow> m' s = (m(sid \<mapsto> so_ref S idx)) s"
    by blast
  have res: "summarise pr st S ld idx (sid # rest) m = Some (h # hs, m')"
    by (simp add: h s)
  have e: "\<forall>i < length (sid # rest).
      build_summary pr st S ld (idx + i) ((sid # rest) ! i) = Some ((h # hs) ! i) \<and>
      m' ((sid # rest) ! i) = Some (so_ref S (idx + i))"
  proof (intro allI impI)
    fix i assume i: "i < length (sid # rest)"
    show "build_summary pr st S ld (idx + i) ((sid # rest) ! i) = Some ((h # hs) ! i) \<and>
      m' ((sid # rest) ! i) = Some (so_ref S (idx + i))"
    proof (cases i)
      case 0
      with h other ni show ?thesis by simp
    next
      case (Suc j)
      with i each show ?thesis by simp
    qed
  qed
  have o: "\<forall>s. s \<notin> set (sid # rest) \<longrightarrow> m' s = m s"
    using other by simp
  from res len e o show ?case by (intro exI[of _ "h # hs"] exI[of _ m']) simp
qed

lemma unique_stores_props:
  "distinct (unique_stores ld)" "sorted_wrt (<) (unique_stores ld)"
  "set (unique_stores ld) = {s. \<exists>l \<in> set ld. store_id l = Some s}"
proof -
  show d: "distinct (unique_stores ld)" by (simp add: unique_stores_def)
  have "sorted (unique_stores ld)" by (simp add: unique_stores_def)
  with d show "sorted_wrt (<) (unique_stores ld)"
    by (simp add: strict_sorted_iff)
  show "set (unique_stores ld) = {s. \<exists>l \<in> set ld. store_id l = Some s}"
    by (force simp: unique_stores_def List.map_filter_def image_iff)
qed

subsection \<open>Aggregator: order references and headers\<close>

lemma aggregate_spec:
  "\<exists>hs m. aggregate pr st S ls =
        Some (hs, map (\<lambda>l. l\<lparr>so_reference := map_so m (store_id l)\<rparr>) (dropna_store ls)) \<and>
     length hs = length (unique_stores (dropna_store ls)) \<and>
     (\<forall>i < length hs.
        build_summary pr st S (dropna_store ls) i (unique_stores (dropna_store ls) ! i) = Some (hs ! i) \<and>
        m (unique_stores (dropna_store ls) ! i) = Some (so_ref S i))"
proof (cases "ls = []")
  case True
  then show ?thesis
    by (simp add: aggregate_def dropna_store_def unique_stores_def List.map_filter_def)
next
  case False
  let ?ld = "dropna_store ls"
  have pre: "\<forall>sid \<in> set (unique_stores ?ld). \<exists>l \<in> set ?ld. store_id l = Some sid"
    by (simp add: unique_stores_props(3))
  from summarise_spec[OF pre unique_stores_props(1), of pr st S 0 Map.empty]
  obtain hs m' where s: "summarise pr st S ?ld 0 (unique_stores ?ld) Map.empty = Some (hs, m')"
    and len: "length hs = length (unique_stores ?ld)"
    and each: "\<forall>i < length (unique_stores ?ld).
        build_summary pr st S ?ld (0 + i) (unique_stores ?ld ! i) = Some (hs ! i) \<and>
        m' (unique_stores ?ld ! i) = Some (so_ref S (0 + i))"
    by blast
  have "aggregate pr st S ls = Some (hs, map (\<lambda>l. l\<lparr>so_reference := map_so m' (store_id l)\<rparr>) ?ld)"
    using False by (simp add: aggregate_def Let_def s)
  with len each show ?thesis by (intro exI[of _ hs] exI[of _ m']) simp
qed

lemma store_group_dropna: "store_group sid (dropna_store ls) = store_group sid ls"
  by (induction ls) (auto simp: store_group_def dropna_store_def)


text \<open>
  C7 (as amended).  The header of a destination carries the order date and the delivery date
  of the first line of that destination in table order, its order numbers without
  duplicates, sorted and joined by a comma and a space, the sum of its lines' total prices
  as pandas adds a column (the plain sum whenever every total is finite) and the number of
  its lines.
\<close>

theorem order_header_fields:
  assumes agg: "aggregate pr st S ls = Some (hs, ds)" and i: "i < length hs"
  shows "store_group (sum_store_id (hs ! i)) ls \<noteq> [] \<and>
     sum_order_date (hs ! i) = order_date (hd (store_group (sum_store_id (hs ! i)) ls)) \<and>
     sum_delivery_date (hs ! i) = delivery_date (hd (store_group (sum_store_id (hs ! i)) ls)) \<and>
     po_numbers (hs ! i) =
       join '', '' (sort (remdups (map po_number (store_group (sum_store_id (hs ! i)) ls)))) \<and>
     total_value (hs ! i) = pd_sum (map total_price (store_group (sum_store_id (hs ! i)) ls)) \<and>
     (\<forall>xs. map total_price (store_group (sum_store_id (hs ! i)) ls) = map Fin xs \<longrightarrow>
        total_value (hs ! i) = Fin (sum_list xs)) \<and>
     total_lines (hs ! i) = length (store_group (sum_store_id (hs ! i)) ls)"
proof -
  from aggregate_spec[of pr st S ls] agg i
  have b: "build_summary pr st S (dropna_store ls) i (unique_stores (dropna_store ls) ! i) =
      Some (hs ! i)"
    by auto
  note f = build_summary_fields[OF b]
  have main: "store_group (sum_store_id (hs ! i)) ls \<noteq> [] \<and>
     sum_order_date (hs ! i) = order_date (hd (store_group (sum_store_id (hs ! i)) ls)) \<and>
     sum_delivery_date (hs ! i) = delivery_date (hd (store_group (sum_store_id (hs ! i)) ls)) \<and>
     po_numbers (hs ! i) =
       join '', '' (sort (remdups (map po_number (store_group (sum_store_id (hs ! i)) ls)))) \<and>
     total_value (hs ! i) = pd_sum (map total_price (store_group (sum_store_id (hs ! i)) ls)) \<and>
     total_lines (hs ! i) = length (store_group (sum_store_id (hs ! i)) ls)"
    using f(3-8) by (simp only: f(1) store_group_dropna simp_thms)
  have fin: "\<forall>xs. map total_price (store_group (sum_store_id (hs ! i)) ls) = map Fin xs \<longrightarrow>
        total_value (hs ! i) = Fin (sum_list xs)"
  proof (intro allI impI)
    fix xs
    assume a: "map total_price (store_group (sum_store_id (hs ! i)) ls) = map Fin xs"
    from main
    have "total_value (hs ! i) = pd_sum (map total_price (store_group (sum_store_id (hs ! i)) ls))"
      by blast
    then show "total_value (hs ! i) = Fin (sum_list xs)"
      by (simp only: a pd_sum_fin)
  qed
  from main fin show ?thesis by blast
qed

subsection \<open>Allocator: the group loop\<close>

lemma core_fields:
  "core b = core a \<Longrightarrow> product_uom_qty b = product_uom_qty a \<and> warehouse b = warehouse a \<and>
     internal_reference b = internal_reference a \<and> store_id b = store_id a \<and>
     hist_avg_sales b = hist_avg_sales a \<and> store_on_hand b = store_on_hand a \<and>
     odoo_on_hand b = odoo_on_hand a \<and> odoo_available b = odoo_available a"
  by (cases a, cases b) (simp add: core_def)

lemma core_in_group: "core b = core a \<Longrightarrow> in_group w ref b = in_group w ref a"
  by (drule core_fields) (simp add: in_group_def)

lemma core_annot [simp]:
  "core (l\<lparr>flagged := x, flag_reason := y\<rparr>) = core l"
  "core (l\<lparr>flag_reason := y, shortage_details := z\<rparr>) = core l"
  by (simp_all add: core_def)

lemma core_mark [simp]: "core (mark_shortage d a l) = core l"
  by (simp add: mark_shortage_def)

lemma rel_step_refl: "list_all2 (rel_step w ref (\<lambda>a. a)) ld ld"
  by (simp add: list_all2_refl rel_step_def)

lemma rel_step_trans:
  assumes "list_all2 (rel_step w ref F) xs ys" "list_all2 (rel_step w ref G) ys zs"
  shows "list_all2 (rel_step w ref (G \<circ> F)) xs zs"
proof (rule list_all2_trans[OF _ assms])
  fix a b c assume "rel_step w ref F a b" "rel_step w ref G b c"
  then show "rel_step w ref (G \<circ> F) a c"
    by (auto simp: rel_step_def dest: core_in_group)
qed

lemma update_group_other:
  assumes "w' \<noteq> w \<or> r' \<noteq> ref" and "\<And>l. core (f l) = core l"
  shows "list_all2 (rel_step w ref (\<lambda>a. a)) ld (update_group w' r' f ld)"
  unfolding update_group_def list_all2_map2
  by (rule list_all2_refl) (use assms in \<open>auto simp: rel_step_def in_group_def\<close>)

lemma update_group_same:
  assumes "\<And>l. core (f l) = core l"
  shows "list_all2 (rel_step w ref f) ld (update_group w ref f ld)"
  unfolding update_group_def list_all2_map2
  by (rule list_all2_refl) (use assms in \<open>auto simp: rel_step_def\<close>)

lemma process_group_other:
  assumes "w' \<noteq> w \<or> r' \<noteq> ref"
  shows "list_all2 (rel_step w ref (\<lambda>a. a)) ld (process_group fmt whl w' r' ld)"
  unfolding process_group_def
  by (auto simp: Let_def rel_step_refl intro!: update_group_other[OF assms] split: list.splits)

lemma process_group_shortage:
  assumes "filter (\<lambda>l. internal_reference l = ref) whl = g # gs"
    and "0 < odoo_on_hand g" "0 < odoo_available g"
    and "odoo_available g < sum_list (map product_uom_qty (g # gs))"
  shows "process_group fmt whl w ref ld =
     update_group w ref (mark_shortage (sum_list (map product_uom_qty (g # gs))) (odoo_available g)) ld"
  using assms
  by (simp add: process_group_def Let_def mark_shortage_def[abs_def] del: sum_list.Cons list.map)

lemma fold_other:
  assumes "w' \<noteq> w \<or> ref \<notin> set refs"
  shows "list_all2 (rel_step w ref (\<lambda>a. a)) ld (fold (process_group fmt whl w') refs ld)"
  using assms
proof (induction refs arbitrary: ld)
  case Nil
  show ?case by (simp add: rel_step_refl)
next
  case (Cons r rs)
  then have a: "w' \<noteq> w \<or> r \<noteq> ref" and b: "w' \<noteq> w \<or> ref \<notin> set rs" by auto
  from rel_step_trans[OF process_group_other[OF a] Cons.IH[OF b]]
  show ?case by (simp add: comp_def)
qed

lemma fold_target:
  assumes d: "distinct refs" and m: "ref \<in> set refs"
    and g: "filter (\<lambda>l. internal_reference l = ref) whl = g # gs"
    and c: "0 < odoo_on_hand g" "0 < odoo_available g"
      "odoo_available g < sum_list (map product_uom_qty (g # gs))"
  shows "list_all2 (rel_step w ref
      (mark_shortage (sum_list (map product_uom_qty (g # gs))) (odoo_available g)))
      ld (fold (process_group fmt whl w) refs ld)"
proof -
  let ?F = "mark_shortage (sum_list (map product_uom_qty (g # gs))) (odoo_available g)"
  from m obtain pre post where sp: "refs = pre @ ref # post"
    by (auto simp: in_set_conv_decomp)
  with d have np: "ref \<notin> set pre" "ref \<notin> set post" by auto
  let ?l1 = "fold (process_group fmt whl w) pre ld"
  let ?l2 = "process_group fmt whl w ref ?l1"
  have s1: "list_all2 (rel_step w ref (\<lambda>a. a)) ld ?l1"
    by (rule fold_other) (simp add: np)
  have s2: "list_all2 (rel_step w ref ?F) ?l1 ?l2"
    unfolding process_group_shortage[OF g c]
    by (rule update_group_same) simp
  have s3: "list_all2 (rel_step w ref (\<lambda>a. a)) ?l2 (fold (process_group fmt whl w) post ?l2)"
    by (rule fold_other) (simp add: np)
  from rel_step_trans[OF rel_step_trans[OF s1 s2] s3]
  show ?thesis by (simp add: sp comp_def)
qed

subsection \<open>Allocator: the warehouse loop\<close>

lemma process_warehouse_other:
  assumes "w' \<noteq> w"
  shows "list_all2 (rel_step w ref (\<lambda>a. a)) ld (process_warehouse fmt w' ld)"
  unfolding process_warehouse_def Let_def
  using assms by (simp add: rel_step_refl fold_other)

lemma process_warehouse_target:
  assumes g: "filter (in_group w ref) ld = g # gs"
    and c: "0 < odoo_on_hand g" "0 < odoo_available g"
      "odoo_available g < sum_list (map product_uom_qty (g # gs))"
  shows "list_all2 (rel_step w ref
      (mark_shortage (sum_list (map product_uom_qty (g # gs))) (odoo_available g)))
      ld (process_warehouse fmt w ld)"
proof -
  let ?whl = "filter (\<lambda>l. warehouse l = w) ld"
  have gg: "filter (\<lambda>l. internal_reference l = ref) ?whl = g # gs"
    using g by (simp add: in_group_def[abs_def])
  then have "g \<in> set (filter (\<lambda>l. internal_reference l = ref) ?whl)" by simp
  then have gin: "g \<in> set ?whl" and gref: "internal_reference g = ref" by simp_all
  then have ne: "?whl \<noteq> []" by (auto simp: filter_empty_conv)
  have d: "distinct (sort (remdups (map internal_reference ?whl)))" by simp
  have m: "ref \<in> set (sort (remdups (map internal_reference ?whl)))"
    using gin gref by (simp del: set_filter) (rule image_eqI[of _ _ g], simp_all)
  show ?thesis
    unfolding process_warehouse_def Let_def
    using ne fold_target[OF d m gg c] by simp
qed

lemma filter_rel:
  assumes "list_all2 (rel_step w ref (\<lambda>a. a)) xs ys"
  shows "filter (in_group w ref) ys = filter (in_group w ref) xs"
  using assms
proof (induction rule: list_all2_induct)
  case Nil
  show ?case by simp
next
  case (Cons a as b bs)
  from Cons(1) have "core b = core a" and "in_group w ref a \<Longrightarrow> b = a"
    by (simp_all add: rel_step_def)
  with core_in_group[of b a w ref] Cons.IH show ?case by auto
qed

lemma flag_stage_target:
  assumes w: "w = ''CE'' \<or> w = ''CW''"
    and g: "filter (in_group w ref) ld = g # gs"
    and c: "0 < odoo_on_hand g" "0 < odoo_available g"
      "odoo_available g < sum_list (map product_uom_qty (g # gs))"
  shows "list_all2 (rel_step w ref
      (mark_shortage (sum_list (map product_uom_qty (g # gs))) (odoo_available g)))
      ld (fold (process_warehouse fmt) [''CE'', ''CW''] ld)"
proof -
  let ?F = "mark_shortage (sum_list (map product_uom_qty (g # gs))) (odoo_available g)"
  from w show ?thesis
  proof
    assume ce: "w = ''CE''"
    then have ne: "''CW'' \<noteq> w" by simp
    from rel_step_trans[OF process_warehouse_target[OF g c, of fmt]
        process_warehouse_other[OF ne, of ref "process_warehouse fmt w ld" fmt]]
    show ?thesis by (simp add: ce comp_def)
  next
    assume cw: "w = ''CW''"
    then have ne: "''CE'' \<noteq> w" by simp
    have o: "list_all2 (rel_step w ref (\<lambda>a. a)) ld (process_warehouse fmt ''CE'' ld)"
      by (rule process_warehouse_other[OF ne])
    have g': "filter (in_group w ref) (process_warehouse fmt ''CE'' ld) = g # gs"
      by (simp only: filter_rel[OF o] g)
    from rel_step_trans[OF o process_warehouse_target[OF g' c, of fmt]]
    show ?thesis by (simp add: cw comp_def)
  qed
qed

lemma flag_stage_core:
  "list_all2 (\<lambda>a b. core b = core a) ld (fold (process_warehouse fmt) [''CE'', ''CW''] ld)"
proof -
  have a: "list_all2 (rel_step ''none'' ref (\<lambda>a. a)) ld (process_warehouse fmt ''CE'' ld)" for ref ld
    by (rule process_warehouse_other) simp
  have b: "list_all2 (rel_step ''none'' ref (\<lambda>a. a)) ld (process_warehouse fmt ''CW'' ld)" for ref ld
    by (rule process_warehouse_other) simp
  from rel_step_trans[OF a b, of "[]" ld]
  have "list_all2 (rel_step ''none'' [] ((\<lambda>a. a) \<circ> (\<lambda>a. a))) ld
     (fold (process_warehouse fmt) [''CE'', ''CW''] ld)" by simp
  then show ?thesis
    by (rule list_all2_mono) (simp add: rel_step_def)
qed

lemma flag_stage_map_core:
  "map core (fold (process_warehouse fmt) [''CE'', ''CW''] ld) = map core ld"
  using flag_stage_core[of ld fmt]
  by (induction rule: list_all2_induct) simp_all

subsection \<open>Allocator: the merges\<close>

lemma concat_replicate_replicate: "concat (replicate a (replicate b x)) = replicate (a * b) x"
  by (induction a) (simp_all add: replicate_add)

lemma concat_concat_map: "concat (concat (map f xs)) = concat (map (\<lambda>x. concat (f x)) xs)"
  by (induction xs) simp_all

lemma merge_left_map:
  assumes "\<And>l v. g (upd l v) = g l"
  shows "map g (merge_left upd ld tbl) =
     concat (map (\<lambda>l. replicate (max 1 (length (filter (key_match l) tbl))) (g l)) ld)"
proof (induction ld)
  case Nil
  show ?case by (simp add: merge_left_def)
next
  case (Cons l ld)
  have "map g (case filter (key_match l) tbl of [] \<Rightarrow> [upd l None]
          | m # ms \<Rightarrow> map (\<lambda>r. upd l (ext_value r)) (m # ms)) =
        replicate (max 1 (length (filter (key_match l) tbl))) (g l)"
    by (cases "filter (key_match l) tbl") (simp_all add: assms comp_def map_replicate_const)
  with Cons show ?case by (simp add: merge_left_def)
qed

lemma merge_opt_map:
  assumes "\<And>l v. g (upd l v) = g l"
  shows "map g (if tbl \<noteq> [] then merge_left upd ld tbl else ld) =
     concat (map (\<lambda>l. replicate (max 1 (length (filter (key_match l) tbl))) (g l)) ld)"
proof (cases "tbl = []")
  case True
  then show ?thesis by simp
next
  case False
  then show ?thesis by (simp add: merge_left_map[of g upd, OF assms])
qed

lemma key_match_upd [simp]:
  "key_match (l\<lparr>hist_avg_sales := v\<rparr>) = key_match l"
  "key_match (l\<lparr>store_on_hand := v\<rparr>) = key_match l"
  by (simp_all add: key_match_def fun_eq_iff)

lemma merge_external_map:
  assumes h: "\<And>l v. g (l\<lparr>hist_avg_sales := v\<rparr>) = g l"
    and s: "\<And>l v. g (l\<lparr>store_on_hand := v\<rparr>) = g l"
    and c: "\<And>l. g (coerce_store_id l) = g l"
  shows "map g (merge_external ld hs si) =
     concat (map (\<lambda>l. replicate (match_count hs l * match_count si l) (g l)) ld)"
proof -
  let ?ld1 = "map coerce_store_id ld"
  let ?ld2 = "if hs \<noteq> [] then merge_left (\<lambda>l v. l\<lparr>hist_avg_sales := v\<rparr>) ?ld1 hs else ?ld1"
  let ?ld3 = "if si \<noteq> [] then merge_left (\<lambda>l v. l\<lparr>store_on_hand := v\<rparr>) ?ld2 si else ?ld2"
  let ?cnt = "\<lambda>tbl l. max 1 (length (filter (key_match l) tbl))"
  let ?h = "\<lambda>l. replicate (?cnt si l) (g l)"
  have "map g (merge_external ld hs si) = map g ?ld3"
    by (simp add: merge_external_def Let_def comp_def h s)
  also have "\<dots> = concat (map ?h ?ld2)"
    by (rule merge_opt_map) (rule s)
  also have "map ?h ?ld2 = concat (map (\<lambda>l. replicate (?cnt hs l) (?h l)) ?ld1)"
    by (rule merge_opt_map) (simp add: h)
  also have "concat \<dots> = concat (map (\<lambda>l. replicate (?cnt hs l * ?cnt si l) (g l)) ?ld1)"
    by (simp only: concat_concat_map concat_replicate_replicate)
  also have "\<dots> = concat (map (\<lambda>l. replicate (match_count hs l * match_count si l) (g l)) ld)"
    by (simp add: comp_def match_count_def c)
  finally show ?thesis .
qed

subsection \<open>Allocator: quantities and shortages\<close>

lemma optimize_fst:
  "fst (optimize_allocations fmt ld hs si) =
     fold (process_warehouse fmt) [''CE'', ''CW''] (merge_external ld hs si)"
  by (cases "ld = []") (simp_all add: optimize_allocations_def merge_external_def merge_left_def
       process_warehouse_def)

lemma core_qty: "product_uom_qty (core l) = product_uom_qty l"
  by (simp add: core_def)

lemma frame_core: "frame (core l) = frame l"
  by (simp add: frame_def core_def)

lemma map_via_core:
  assumes "\<And>l. g (core l) = g l"
  shows "map g (fold (process_warehouse fmt) [''CE'', ''CW''] ld) = map g ld"
proof -
  have "map g (fold (process_warehouse fmt) [''CE'', ''CW''] ld) =
        map g (map core (fold (process_warehouse fmt) [''CE'', ''CW''] ld))"
    by (simp add: comp_def assms del: fold_simps)
  also have "\<dots> = map g (map core ld)" by (simp only: flag_stage_map_core)
  also have "\<dots> = map g ld" by (simp add: comp_def assms)
  finally show ?thesis .
qed

text \<open>
  C4.  The allocator never changes a unit count: the unit counts of its output are those of
  the input lines in their order, each line appearing once per pair of matching rows of the
  two external tables (once when nothing matches); the same holds for every column but the
  cast destination id, the two merged columns and the three annotations; and where no line
  matches more than one row of either table the unit counts are the input's, position by
  position.
\<close>

theorem allocator_non_destructive:
  "map product_uom_qty (fst (optimize_allocations fmt ld hs si)) =
     concat (map (\<lambda>l. replicate (match_count hs l * match_count si l) (product_uom_qty l)) ld) \<and>
   map frame (fst (optimize_allocations fmt ld hs si)) =
     concat (map (\<lambda>l. replicate (match_count hs l * match_count si l) (frame l)) ld) \<and>
   ((\<forall>l \<in> set ld. match_count hs l = 1 \<and> match_count si l = 1) \<longrightarrow>
      map product_uom_qty (fst (optimize_allocations fmt ld hs si)) = map product_uom_qty ld)"
proof -
  have q: "map product_uom_qty (fst (optimize_allocations fmt ld hs si)) =
     concat (map (\<lambda>l. replicate (match_count hs l * match_count si l) (product_uom_qty l)) ld)"
    unfolding optimize_fst
    by (simp only: map_via_core[of product_uom_qty, OF core_qty])
       (rule merge_external_map; simp add: coerce_store_id_def)
  have f: "map frame (fst (optimize_allocations fmt ld hs si)) =
     concat (map (\<lambda>l. replicate (match_count hs l * match_count si l) (frame l)) ld)"
    unfolding optimize_fst
    by (simp only: map_via_core[of frame, OF frame_core])
       (rule merge_external_map; simp add: coerce_store_id_def frame_def)
  have u: "(\<forall>l \<in> set ld. match_count hs l = 1 \<and> match_count si l = 1) \<longrightarrow>
      map product_uom_qty (fst (optimize_allocations fmt ld hs si)) = map product_uom_qty ld"
  proof
    assume a: "\<forall>l \<in> set ld. match_count hs l = 1 \<and> match_count si l = 1"
    then have "map (\<lambda>l. replicate (match_count hs l * match_count si l) (product_uom_qty l)) ld =
        map (\<lambda>l. [product_uom_qty l]) ld"
      by (intro map_cong) simp_all
    with q show "map product_uom_qty (fst (optimize_allocations fmt ld hs si)) =
        map product_uom_qty ld" by simp
  qed
  from q f u show ?thesis by blast
qed

text \<open>
  C5 (as amended).  For a warehouse \<open>w\<close> (CE or CW) and a reference whose group in the merged
  table starts with a line with positive on-hand and with an available quantity that is
  positive and below the group's total demand: every line of the group comes out as the
  merged line with its flag reason set to \<^verbatim>\<open>Shortage\<close> and its shortage detail set to
  \<^verbatim>\<open>D: <demand>, Ava: <available>\<close> and nothing else changed (the boolean \<^verbatim>\<open>flagged\<close>
  keeps its value), and no line of the table changes its unit count.
\<close>

theorem shortage_annotation:
  assumes w: "w = ''CE'' \<or> w = ''CW''"
    and g: "filter (in_group w ref) (merge_external ld hs si) = g # gs"
    and c: "0 < odoo_on_hand g" "0 < odoo_available g"
      "odoo_available g < sum_list (map product_uom_qty (g # gs))"
  shows "length (fst (optimize_allocations fmt ld hs si)) = length (merge_external ld hs si) \<and>
    (\<forall>i < length (merge_external ld hs si).
       product_uom_qty (fst (optimize_allocations fmt ld hs si) ! i) =
         product_uom_qty (merge_external ld hs si ! i) \<and>
       (in_group w ref (merge_external ld hs si ! i) \<longrightarrow>
          fst (optimize_allocations fmt ld hs si) ! i =
            (merge_external ld hs si ! i)
              \<lparr>flag_reason := Some ''Shortage'',
               shortage_details :=
                 Some (''D: '' @ dec (py_int (sum_list (map product_uom_qty (g # gs)))) @
                       '', Ava: '' @ dec (py_int (odoo_available g)))\<rparr>))"
proof -
  let ?m = "merge_external ld hs si"
  let ?out = "fst (optimize_allocations fmt ld hs si)"
  let ?F = "mark_shortage (sum_list (map product_uom_qty (g # gs))) (odoo_available g)"
  have r: "list_all2 (rel_step w ref ?F) ?m ?out"
    unfolding optimize_fst by (rule flag_stage_target[OF w g c])
  then have len: "length ?out = length ?m" by (simp add: list_all2_lengthD)
  have each: "\<forall>i < length ?m. product_uom_qty (?out ! i) = product_uom_qty (?m ! i) \<and>
       (in_group w ref (?m ! i) \<longrightarrow> ?out ! i = ?F (?m ! i))"
  proof (intro allI impI)
    fix i assume "i < length ?m"
    with r have "rel_step w ref ?F (?m ! i) (?out ! i)" by (rule list_all2_nthD)
    then show "product_uom_qty (?out ! i) = product_uom_qty (?m ! i) \<and>
       (in_group w ref (?m ! i) \<longrightarrow> ?out ! i = ?F (?m ! i))"
      by (auto simp: rel_step_def dest: core_fields)
  qed
  from len each show ?thesis
    by (simp only: mark_shortage_def shortage_text_def)
qed

subsection \<open>Allocator: merge defaults\<close>

lemma merge_left_mem:
  assumes "m \<in> set (merge_left upd ld tbl)"
  shows "\<exists>l \<in> set ld. (\<not> (\<exists>r \<in> set tbl. key_match l r) \<and> m = upd l None) \<or>
                        (\<exists>r \<in> set tbl. key_match l r \<and> m = upd l (ext_value r))"
proof -
  from assms obtain l where l: "l \<in> set ld"
    and m: "m \<in> set (case filter (key_match l) tbl of [] \<Rightarrow> [upd l None]
                      | x # xs \<Rightarrow> map (\<lambda>r. upd l (ext_value r)) (x # xs))"
    by (auto simp: merge_left_def)
  show ?thesis
  proof (cases "filter (key_match l) tbl")
    case Nil
    with m have "m = upd l None" by simp
    moreover from Nil have "\<not> (\<exists>r \<in> set tbl. key_match l r)"
      by (auto simp: filter_empty_conv)
    ultimately show ?thesis using l by blast
  next
    case (Cons x xs)
    with m have "m \<in> (\<lambda>r. upd l (ext_value r)) ` set (filter (key_match l) tbl)"
      by simp
    then obtain r where "r \<in> set tbl" "key_match l r" "m = upd l (ext_value r)" by auto
    then show ?thesis using l by blast
  qed
qed

lemma key_match_coerce_fields:
  "internal_reference b = internal_reference a \<Longrightarrow> store_id b = store_id a \<Longrightarrow>
   key_match b = key_match a"
  by (simp add: key_match_def fun_eq_iff)

lemma hist_stage_mem:
  assumes "m \<in> set (if hs \<noteq> [] then merge_left (\<lambda>l v. l\<lparr>hist_avg_sales := v\<rparr>) ld1 hs else ld1)"
  shows "\<exists>l \<in> set ld1. key_match m = key_match l \<and> store_on_hand m = store_on_hand l \<and>
     (if hs = [] then hist_avg_sales m = hist_avg_sales l
      else (\<exists>r \<in> set hs. key_match l r) \<or> hist_avg_sales m = None)"
proof (cases "hs = []")
  case True
  with assms show ?thesis by auto
next
  case False
  with assms have "m \<in> set (merge_left (\<lambda>l v. l\<lparr>hist_avg_sales := v\<rparr>) ld1 hs)" by simp
  from merge_left_mem[OF this] False show ?thesis by auto
qed

lemma inv_stage_mem:
  assumes "m \<in> set (if si \<noteq> [] then merge_left (\<lambda>l v. l\<lparr>store_on_hand := v\<rparr>) ld2 si else ld2)"
  shows "\<exists>l \<in> set ld2. key_match m = key_match l \<and> hist_avg_sales m = hist_avg_sales l \<and>
     (if si = [] then store_on_hand m = store_on_hand l
      else (\<exists>r \<in> set si. key_match l r) \<or> store_on_hand m = None)"
proof (cases "si = []")
  case True
  with assms show ?thesis by auto
next
  case False
  with assms have "m \<in> set (merge_left (\<lambda>l v. l\<lparr>store_on_hand := v\<rparr>) ld2 si)" by simp
  from merge_left_mem[OF this] False show ?thesis by auto
qed

lemma fillna0_simps [simp]: "fillna0 None = Some 0" "fillna0 (Some 0) = Some 0"
  by (simp_all add: fillna0_def)

lemma merge_external_mem:
  assumes "m \<in> set (merge_external ld hs si)"
  shows "\<exists>l \<in> set ld.
     (if hs = [] then hist_avg_sales m = fillna0 (hist_avg_sales l)
      else (\<exists>r \<in> set hs. key_match m r) \<or> hist_avg_sales m = Some 0) \<and>
     (if si = [] then store_on_hand m = fillna0 (store_on_hand l)
      else (\<exists>r \<in> set si. key_match m r) \<or> store_on_hand m = Some 0)"
proof -
  let ?ld1 = "map coerce_store_id ld"
  let ?ld2 = "if hs \<noteq> [] then merge_left (\<lambda>l v. l\<lparr>hist_avg_sales := v\<rparr>) ?ld1 hs else ?ld1"
  let ?ld3 = "if si \<noteq> [] then merge_left (\<lambda>l v. l\<lparr>store_on_hand := v\<rparr>) ?ld2 si else ?ld2"
  from assms obtain l3 where l3: "l3 \<in> set ?ld3"
    and m: "m = l3\<lparr>hist_avg_sales := fillna0 (hist_avg_sales l3),
                   store_on_hand := fillna0 (store_on_hand l3)\<rparr>"
    by (auto simp: merge_external_def Let_def)
  from inv_stage_mem[OF l3] obtain l2 where l2: "l2 \<in> set ?ld2"
    and k3: "key_match l3 = key_match l2" and h3: "hist_avg_sales l3 = hist_avg_sales l2"
    and s3: "if si = [] then store_on_hand l3 = store_on_hand l2
      else (\<exists>r \<in> set si. key_match l2 r) \<or> store_on_hand l3 = None"
    by blast
  from hist_stage_mem[OF l2] obtain l1 where l1: "l1 \<in> set ?ld1"
    and k2: "key_match l2 = key_match l1" and s2: "store_on_hand l2 = store_on_hand l1"
    and h2: "if hs = [] then hist_avg_sales l2 = hist_avg_sales l1
      else (\<exists>r \<in> set hs. key_match l1 r) \<or> hist_avg_sales l2 = None"
    by blast
  from l1 obtain l where l: "l \<in> set ld" and c: "l1 = coerce_store_id l" by auto
  have km: "key_match m = key_match l3"
    by (simp add: m key_match_def fun_eq_iff)
  have hm: "hist_avg_sales m = fillna0 (hist_avg_sales l3)"
    and sm: "store_on_hand m = fillna0 (store_on_hand l3)" by (simp_all add: m)
  have hl: "hist_avg_sales l1 = hist_avg_sales l" and sl: "store_on_hand l1 = store_on_hand l"
    by (simp_all add: c coerce_store_id_def)
  have H: "if hs = [] then hist_avg_sales m = fillna0 (hist_avg_sales l)
      else (\<exists>r \<in> set hs. key_match m r) \<or> hist_avg_sales m = Some 0"
    using h2 by (auto simp: hm h3 hl km k3 k2 split: if_splits)
  have S: "if si = [] then store_on_hand m = fillna0 (store_on_hand l)
      else (\<exists>r \<in> set si. key_match m r) \<or> store_on_hand m = Some 0"
    using s3 by (auto simp: sm s2 sl km k3 split: if_splits)
  from l H S show ?thesis by blast
qed

lemma flag_stage_mem:
  assumes "l' \<in> set (fold (process_warehouse fmt) [''CE'', ''CW''] ld)"
  shows "\<exists>m \<in> set ld. core l' = core m"
proof -
  from assms obtain i where i: "i < length (fold (process_warehouse fmt) [''CE'', ''CW''] ld)"
    and e: "fold (process_warehouse fmt) [''CE'', ''CW''] ld ! i = l'"
    by (auto simp: in_set_conv_nth)
  from flag_stage_core[of ld fmt] i have "i < length ld"
    by (simp add: list_all2_lengthD)
  moreover from flag_stage_core[of ld fmt] this
  have "core (fold (process_warehouse fmt) [''CE'', ''CW''] ld ! i) = core (ld ! i)"
    by (rule list_all2_nthD)
  ultimately show ?thesis using e by auto
qed

text \<open>
  C6 (as amended).  For a line of the allocator's output whose (reference, destination id)
  key is in neither external table: its historical-sales column is 0 when that table is not
  empty, or when every input line entered with that column at 0 or null; and likewise for
  its store-on-hand column and the inventory table.
\<close>

theorem merge_defaulting:
  assumes out: "l' \<in> set (fst (optimize_allocations fmt ld hs si))"
    and nh: "\<not> (\<exists>r \<in> set hs. key_match l' r)" and ns: "\<not> (\<exists>r \<in> set si. key_match l' r)"
  shows "((hs \<noteq> [] \<or> (\<forall>l \<in> set ld. hist_avg_sales l = None \<or> hist_avg_sales l = Some 0)) \<longrightarrow>
            hist_avg_sales l' = Some 0) \<and>
         ((si \<noteq> [] \<or> (\<forall>l \<in> set ld. store_on_hand l = None \<or> store_on_hand l = Some 0)) \<longrightarrow>
            store_on_hand l' = Some 0)"
proof -
  from out flag_stage_mem obtain m where m: "m \<in> set (merge_external ld hs si)"
    and cm: "core l' = core m"
    unfolding optimize_fst by blast
  from core_fields[OF cm] have f1: "hist_avg_sales l' = hist_avg_sales m"
    and f2: "store_on_hand l' = store_on_hand m"
    and f3: "internal_reference l' = internal_reference m" and f4: "store_id l' = store_id m"
    by simp_all
  have f5: "key_match l' = key_match m"
    by (rule key_match_coerce_fields[OF f3 f4])
  from merge_external_mem[OF m] obtain l where l: "l \<in> set ld"
    and H: "if hs = [] then hist_avg_sales m = fillna0 (hist_avg_sales l)
      else (\<exists>r \<in> set hs. key_match m r) \<or> hist_avg_sales m = Some 0"
    and S: "if si = [] then store_on_hand m = fillna0 (store_on_hand l)
      else (\<exists>r \<in> set si. key_match m r) \<or> store_on_hand m = Some 0"
    by blast
  have a: "(hs \<noteq> [] \<or> (\<forall>l \<in> set ld. hist_avg_sales l = None \<or> hist_avg_sales l = Some 0)) \<longrightarrow>
            hist_avg_sales l' = Some 0"
  proof (cases "hs = []")
    case True
    with H l show ?thesis by (auto simp: f1)
  next
    case False
    with H nh show ?thesis by (simp add: f1 f5)
  qed
  have b: "(si \<noteq> [] \<or> (\<forall>l \<in> set ld. store_on_hand l = None \<or> store_on_hand l = Some 0)) \<longrightarrow>
            store_on_hand l' = Some 0"
  proof (cases "si = []")
    case True
    with S l show ?thesis by (auto simp: f2)
  next
    case False
    with S ns show ?thesis by (simp add: f2 f5)
  qed
  from a b show ?thesis by blast
qed

subsection \<open>Concrete runs against the claims as stated\<close>

lemmas ex_defs = ex_settings_def ex_variant_def ex_row_def ex_pr_def

text \<open>
  C1 as stated fails for a bundle total that is not whole: 2.5 cases of a reference with two
  variants of factor 1 give two lines of one unit each, and 1 + 1 is not 2.5.
\<close>

theorem expansion_conservation_counterexample:
  "expand_row ex_pr ex_settings
       (products_frame [ex_variant 1 ''R2'' (Num 1), ex_variant 2 ''R2'' (Num 1)])
       (ex_row 5 1001 ''R2'' ''01/10/2024'' (5/2) 12) =
     Inr ([line_data ex_pr ex_settings (ex_row 5 1001 ''R2'' ''01/10/2024'' (5/2) 12)
             (ex_variant 1 ''R2'' (Num 1)) (Fin 1) (Fin 1) (Fin 12) (Fin 12),
           line_data ex_pr ex_settings (ex_row 5 1001 ''R2'' ''01/10/2024'' (5/2) 12)
             (ex_variant 2 ''R2'' (Num 1)) (Fin 1) (Fin 1) (Fin 12) (Fin 12)], []) \<and>
   map product_uom_qty
     [line_data ex_pr ex_settings (ex_row 5 1001 ''R2'' ''01/10/2024'' (5/2) 12)
        (ex_variant 1 ''R2'' (Num 1)) (Fin 1) (Fin 1) (Fin 12) (Fin 12),
      line_data ex_pr ex_settings (ex_row 5 1001 ''R2'' ''01/10/2024'' (5/2) 12)
        (ex_variant 2 ''R2'' (Num 1)) (Fin 1) (Fin 1) (Fin 12) (Fin 12)] = map Fin [1, 1] \<and>
   sum_list [1, 1] = (2 :: rat) \<and>
   x_studio_tt_om_int (ex_variant 1 ''R2'' (Num 1)) = Num 1 \<and>
   Num_of_Order (ex_row 5 1001 ''R2'' ''01/10/2024'' (5/2) 12) * 1 = 5 / 2"
  by code_simp

text \<open>
  C2 as stated fails: with factors 12 and 6 and a line price of 12, the second line's unit
  price is 12 / 12 = 1, not 12 / 6 = 2.
\<close>

theorem multi_variant_price_basis_counterexample:
  "expand_row ex_pr ex_settings
       (products_frame [ex_variant 1 ''R2'' (Num 12), ex_variant 2 ''R2'' (Num 6)])
       (ex_row 5 1001 ''R2'' ''01/10/2024'' 1 12) =
     Inr ([line_data ex_pr ex_settings (ex_row 5 1001 ''R2'' ''01/10/2024'' 1 12)
             (ex_variant 1 ''R2'' (Num 12)) (Fin 12) (Fin 6) (Fin 1) (Fin 6),
           line_data ex_pr ex_settings (ex_row 5 1001 ''R2'' ''01/10/2024'' 1 12)
             (ex_variant 2 ''R2'' (Num 6)) (Fin 6) (Fin 6) (Fin 1) (Fin 6)], []) \<and>
   x_studio_tt_om_int (ex_variant 2 ''R2'' (Num 6)) = Num 6 \<and>
   price_unit (line_data ex_pr ex_settings (ex_row 5 1001 ''R2'' ''01/10/2024'' 1 12)
             (ex_variant 2 ''R2'' (Num 6)) (Fin 6) (Fin 6) (Fin 1) (Fin 6)) \<noteq>
     Fin (Price (ex_row 5 1001 ''R2'' ''01/10/2024'' 1 12) / 6)"
  by code_simp

text \<open>
  C10 fails on the code.  The catalog holds the product R1 with the factor \<^verbatim>\<open>None\<close> and
  the product ZZ with the factor 12, so the factor column of the catalog table is numeric
  and the cell of R1 is NaN.  A line orders 2 of R1 at the price 24: it matches exactly one
  variant, and the factor, the unit count, the unit price and the total of its line are NaN,
  where a factor treated as 1 gives 1, 2, 24 and 48.
\<close>

theorem single_match_none_factor_nan:
  "map x_studio_tt_om_int
     (products_frame [ex_variant 1 ''R1'' Null, ex_variant 2 ''ZZ'' (Num 12)]) =
     [NotANumber, Num 12] \<and>
   (case transform_data ex_pr ex_settings [ex_row 5 1001 ''R1'' ''01/10/2024'' 2 24]
           [ex_variant 1 ''R1'' Null, ex_variant 2 ''ZZ'' (Num 12)] 391 of
      Inl e \<Rightarrow> False
    | Inr (hs, ls, es) \<Rightarrow>
        map units_per_order ls = [NaN] \<and> map product_uom_qty ls = [NaN] \<and>
        map price_unit ls = [NaN] \<and> map total_price ls = [NaN] \<and> es = [])"
  by code_simp

text \<open>
  A key that is missing from the dict of R1 while ZZ has a number gives the same NaN line.
\<close>

lemma single_match_missing_key_run:
  "map x_studio_tt_om_int
     (products_frame [ex_variant 1 ''R1'' Absent, ex_variant 2 ''ZZ'' (Num 12)]) =
     [NotANumber, Num 12] \<and>
   map product_uom_qty (fst (projr (expand_row ex_pr ex_settings
     (products_frame [ex_variant 1 ''R1'' Absent, ex_variant 2 ''ZZ'' (Num 12)])
     (ex_row 5 1001 ''R1'' ''01/10/2024'' 2 24)))) = [NaN]"
  by code_simp

text \<open>
  Two variants of one reference with a zero factor on the first: the bundle total is zero,
  both unit counts are zero, the price divided by the numpy zero is an infinity and the
  line total, zero times infinity, is NaN.  No exception is raised.
\<close>

lemma multi_match_zero_factor_run:
  "expand_row ex_pr ex_settings
       (products_frame [ex_variant 1 ''R2'' (Num 0), ex_variant 2 ''R2'' (Num 6)])
       (ex_row 5 1001 ''R2'' ''01/10/2024'' 2 24) =
     Inr ([line_data ex_pr ex_settings (ex_row 5 1001 ''R2'' ''01/10/2024'' 2 24)
             (ex_variant 1 ''R2'' (Num 0)) (Fin 1) (Fin 0) PInf NaN,
           line_data ex_pr ex_settings (ex_row 5 1001 ''R2'' ''01/10/2024'' 2 24)
             (ex_variant 2 ''R2'' (Num 6)) (Fin 6) (Fin 0) PInf NaN], [])"
  by code_simp

text \<open>
  C8 as stated fails on an empty catalog: two rows match nothing, and the run returns the
  single diagnostic of the guard, which names neither reference.
\<close>

theorem zero_match_diagnostic_counterexample:
  "transform_data ex_pr ex_settings
     [ex_row 5 1001 ''R8'' ''01/10/2024'' 1 12, ex_row 5 1002 ''R9'' ''01/10/2024'' 1 12] [] 391 =
   Inr ([], [], [''No product data fetched from Odoo''])"
  by code_simp

text \<open>
  C7 as stated fails: destination 5 has lines dated 02/15/2024 and then 01/10/2024, and its
  header carries 02/15/2024, which is not the earliest.
\<close>

theorem order_header_dates_counterexample:
  "map sum_order_date (fst (the (aggregate ex_pr ex_settings 391 ex_lines_dates))) =
     [''02/15/2024''] \<and>
   map sum_delivery_date (fst (the (aggregate ex_pr ex_settings 391 ex_lines_dates))) =
     [''02/15/2024''] \<and>
   map store_id ex_lines_dates = [Some 5, Some 5] \<and>
   map order_date ex_lines_dates = [''02/15/2024'', ''01/10/2024''] \<and>
   map delivery_date ex_lines_dates = [''02/15/2024'', ''01/10/2024''] \<and>
   spec_earlier ''01/10/2024'' ''02/15/2024''"
  by code_simp

text \<open>
  C5 as stated fails on the marker: demand 50 against 30 available with 100 on hand sets the
  reason and the detail on both lines and leaves \<^verbatim>\<open>flagged\<close> at \<^verbatim>\<open>False\<close>.
\<close>

theorem shortage_annotation_counterexample:
  "map flagged (fst (optimize_allocations ex_fmt ex_lines_short [] [])) = [False, False] \<and>
   map flag_reason (fst (optimize_allocations ex_fmt ex_lines_short [] [])) =
     [Some ''Shortage'', Some ''Shortage''] \<and>
   map shortage_details (fst (optimize_allocations ex_fmt ex_lines_short [] [])) =
     [Some ''D: 50, Ava: 30'', Some ''D: 50, Ava: 30''] \<and>
   map odoo_on_hand ex_lines_short = [100, 100] \<and>
   map odoo_available ex_lines_short = [30, 30] \<and>
   map product_uom_qty ex_lines_short = [30, 20]"
  by code_simp

text \<open>
  C6 as stated fails with an empty table: a line that carries 50 from an earlier run keeps
  50 when the allocator runs again with both tables empty.
\<close>

theorem merge_defaulting_counterexample:
  "map hist_avg_sales (fst (optimize_allocations ex_fmt ex_lines_short [ex_hist] [])) =
     [Some 50, Some 0] \<and>
   map hist_avg_sales
     (fst (optimize_allocations ex_fmt
        (fst (optimize_allocations ex_fmt ex_lines_short [ex_hist] [])) [] [])) =
     [Some 50, Some 0]"
  by code_simp

subsection \<open>Concrete runs of the theorems: transformer\<close>

theorem expansion_conservation_witness:
  "\<exists>ls. expand_row ex_pr ex_settings
            (products_frame [ex_variant 1 ''R2'' (Num 3), ex_variant 2 ''R2'' (Num 3)])
            (ex_row 5 1001 ''R2'' ''01/10/2024'' 1 12) = Inr (ls, []) \<and>
        length ls = 2 \<and> map product_uom_qty ls = [Fin 2, Fin 1]"
proof -
  let ?row = "ex_row 5 1001 ''R2'' ''01/10/2024'' 1 12"
  let ?p = "ex_variant 1 ''R2'' (Num 3)" and ?q = "ex_variant 2 ''R2'' (Num 3)"
  have m: "filter (\<lambda>p. default_code p = Internal_Reference ?row) (products_frame [?p, ?q]) =
      ?p # [?q]"
    by (simp add: products_frame_def ex_defs)
  have f: "x_studio_tt_om_int ?p \<noteq> NotANumber" by (simp add: ex_defs)
  have T: "Num_of_Order ?row * effective_factor ([?q] = []) (x_studio_tt_om_int ?p) = 3"
    by (simp add: ex_defs effective_factor_def)
  have h: "[?q] \<noteq> [] \<Longrightarrow> x_studio_tt_om_int ?p \<noteq> Null \<and>
        (\<exists>k\<ge>0. Num_of_Order ?row * effective_factor ([?q] = []) (x_studio_tt_om_int ?p) =
           of_int k)"
  proof -
    have "(0::int) \<le> 3 \<and> (3::rat) = of_int 3" by simp
    then have "\<exists>k\<ge>0. (3::rat) = of_int k" by blast
    then show ?thesis unfolding T by (simp add: ex_defs)
  qed
  have fl: "\<lfloor>(3::rat) / of_nat (Suc (length [?q]))\<rfloor> = 1" by code_simp
  have md: "py_mod 3 (Suc (length [?q])) = 1" by code_simp
  from expansion_conservation[OF m f h, of ex_pr ex_settings] obtain ls us where
    r: "expand_row ex_pr ex_settings (products_frame [?p, ?q]) ?row = Inr (ls, [])"
    and len: "length ls = Suc (length [?q])"
    and q: "map product_uom_qty ls = map Fin us"
    and fst: "us ! 0 = of_int 1 + 1"
    and o: "\<forall>i. 0 < i \<and> i < length us \<longrightarrow> us ! i = of_int 1"
    unfolding T fl md by blast
  from q len have "length us = 2" by (metis length_map length_Cons list.size(3) numeral_2_eq_2)
  then obtain a b where ab: "us = [a, b]"
    by (auto simp: length_Suc_conv numeral_2_eq_2)
  from fst o ab have "a = 2" "b = 1" by auto
  with q ab have "map product_uom_qty ls = [Fin 2, Fin 1]" by simp
  with r len show ?thesis by (intro exI[of _ ls]) simp
qed

theorem multi_variant_price_basis_witness:
  "\<exists>ls. expand_row ex_pr ex_settings
            (products_frame [ex_variant 1 ''R2'' (Num 12), ex_variant 2 ''R2'' (Num 6)])
            (ex_row 5 1001 ''R2'' ''01/10/2024'' 1 12) = Inr (ls, []) \<and>
        length ls = 2 \<and> (\<forall>l \<in> set ls. price_unit l = Fin 1)"
proof -
  let ?row = "ex_row 5 1001 ''R2'' ''01/10/2024'' 1 12"
  let ?p = "ex_variant 1 ''R2'' (Num 12)" and ?q = "ex_variant 2 ''R2'' (Num 6)"
  have m: "filter (\<lambda>p. default_code p = Internal_Reference ?row) (products_frame [?p, ?q]) =
      ?p # ?q # []"
    by (simp add: products_frame_def ex_defs)
  have f: "x_studio_tt_om_int ?p \<noteq> Null" "x_studio_tt_om_int ?p \<noteq> NotANumber"
    "x_studio_tt_om_int ?p \<noteq> Num 0"
    by (simp_all add: ex_defs)
  have v: "Price ?row / effective_factor False (x_studio_tt_om_int ?p) = 1"
    by (simp add: ex_defs effective_factor_def)
  from multi_variant_price_basis[OF m f, of ex_pr ex_settings] show ?thesis
    unfolding v by (simp add: numeral_2_eq_2)
qed

theorem zero_match_diagnostic_witness:
  "expand_row ex_pr ex_settings (products_frame [ex_variant 1 ''R1'' (Num 12)])
     (ex_row 5 1002 ''R9'' ''01/10/2024'' 1 12) =
     Inr ([], [''Product not found in Odoo: R9 (Store: 5, PO: 1002)'']) \<and>
   snd (snd (projr (transform_data ex_pr ex_settings
      [ex_row 5 1001 ''R1'' ''01/10/2024'' 2 24, ex_row 5 1002 ''R9'' ''01/10/2024'' 1 12]
      [ex_variant 1 ''R1'' (Num 12)] 391))) =
     [''Product not found in Odoo: R9 (Store: 5, PO: 1002)'']"
proof -
  let ?row = "ex_row 5 1002 ''R9'' ''01/10/2024'' 1 12"
  let ?pre = "[ex_row 5 1001 ''R1'' ''01/10/2024'' 2 24]"
  let ?pv = "[ex_variant 1 ''R1'' (Num 12)]"
  have c: "?pv \<noteq> []" by simp
  have m: "filter (\<lambda>p. default_code p = Internal_Reference ?row) (products_frame ?pv) = []"
    by (simp add: products_frame_def ex_defs)
  have msg: "not_found_message ex_pr ?row = ''Product not found in Odoo: R9 (Store: 5, PO: 1002)''"
    by code_simp
  have ev: "snd (snd (projr
     (case expand_lines ex_pr ex_settings (products_frame ?pv) ?pre of
        Inl e \<Rightarrow> Inl (Raised e)
      | Inr (l1, e1) \<Rightarrow>
          (case expand_lines ex_pr ex_settings (products_frame ?pv) [] of
             Inl e \<Rightarrow> Inl (Raised e)
           | Inr (l2, e2) \<Rightarrow>
               (case aggregate ex_pr ex_settings 391 (l1 @ l2) of
                  None \<Rightarrow> Inl IndexError
                | Some (hs, ds) \<Rightarrow> Inr (hs, ds, e1 @ not_found_message ex_pr ?row # e2)))))) =
     [''Product not found in Odoo: R9 (Store: 5, PO: 1002)'']"
    by code_simp
  from zero_match_diagnostic[OF c m, of ex_pr ex_settings ?pre "[]" 391] msg ev
  show ?thesis by simp
qed


theorem order_header_fields_witness:
  "\<exists>hs ds. aggregate ex_pr ex_settings 391 ex_lines_dates = Some (hs, ds) \<and>
     sum_order_date (hs ! 0) = ''02/15/2024'' \<and> sum_delivery_date (hs ! 0) = ''02/15/2024'' \<and>
     po_numbers (hs ! 0) = ''1001, 1002'' \<and> total_value (hs ! 0) = Fin 72 \<and>
     total_lines (hs ! 0) = 2"
proof -
  from aggregate_spec[of ex_pr ex_settings 391 ex_lines_dates] obtain hs ds where
    a: "aggregate ex_pr ex_settings 391 ex_lines_dates = Some (hs, ds)"
    and len: "length hs = length (unique_stores (dropna_store ex_lines_dates))"
    by blast
  have "length (unique_stores (dropna_store ex_lines_dates)) = 1" by code_simp
  with len have i: "0 < length hs" by simp
  have "map sum_store_id (fst (the (aggregate ex_pr ex_settings 391 ex_lines_dates))) = [5]"
    by code_simp
  with a have sid: "sum_store_id (hs ! 0) = 5" using i by (cases hs) simp_all
  have g: "order_date (hd (store_group 5 ex_lines_dates)) = ''02/15/2024''"
    "delivery_date (hd (store_group 5 ex_lines_dates)) = ''02/15/2024''"
    "join '', '' (sort (remdups (map po_number (store_group 5 ex_lines_dates)))) = ''1001, 1002''"
    "length (store_group 5 ex_lines_dates) = 2"
    by code_simp+
  have t: "map total_price (store_group 5 ex_lines_dates) = map Fin [48, 24]"
    by code_simp
  have s: "sum_list [48, 24] = (72 :: rat)" by simp
  from order_header_fields[OF a i]
  have "sum_order_date (hs ! 0) = ''02/15/2024'' \<and> sum_delivery_date (hs ! 0) = ''02/15/2024'' \<and>
     po_numbers (hs ! 0) = ''1001, 1002'' \<and>
     (map total_price (store_group 5 ex_lines_dates) = map Fin [48, 24] \<longrightarrow>
        total_value (hs ! 0) = Fin (sum_list [48, 24])) \<and>
     total_lines (hs ! 0) = 2"
    unfolding sid g by blast
  with t s a show ?thesis by simp
qed

subsection \<open>Concrete runs of the theorems: allocator\<close>

theorem allocator_non_destructive_witness:
  "map product_uom_qty (fst (optimize_allocations ex_fmt ex_lines_short [ex_hist] [])) = [30, 20] \<and>
   map product_uom_qty (fst (optimize_allocations ex_fmt ex_lines_short [ex_hist, ex_hist] [])) =
     [30, 30, 20]"
proof -
  have c1: "\<forall>l \<in> set ex_lines_short. match_count [ex_hist] l = 1 \<and> match_count [] l = 1"
    by code_simp
  have q: "map product_uom_qty ex_lines_short = [30, 20]" by code_simp
  have c2: "concat (map (\<lambda>l. replicate (match_count [ex_hist, ex_hist] l * match_count [] l)
              (product_uom_qty l)) ex_lines_short) = [30, 30, 20]"
    by code_simp
  from allocator_non_destructive[of ex_fmt ex_lines_short "[ex_hist]" "[]"] c1
  have "map product_uom_qty (fst (optimize_allocations ex_fmt ex_lines_short [ex_hist] [])) =
      map product_uom_qty ex_lines_short"
    by blast
  then have a: "map product_uom_qty (fst (optimize_allocations ex_fmt ex_lines_short [ex_hist] [])) = [30, 20]"
    by (simp only: q)
  from allocator_non_destructive[of ex_fmt ex_lines_short "[ex_hist, ex_hist]" "[]"] c2
  have b: "map product_uom_qty (fst (optimize_allocations ex_fmt ex_lines_short [ex_hist, ex_hist] [])) =
     [30, 30, 20]"
    by (simp only:)
  from a b show ?thesis by simp
qed

theorem shortage_annotation_witness:
  "flag_reason (fst (optimize_allocations ex_fmt ex_lines_short [] []) ! 0) = Some ''Shortage'' \<and>
   shortage_details (fst (optimize_allocations ex_fmt ex_lines_short [] []) ! 0) =
     Some ''D: 50, Ava: 30'' \<and>
   product_uom_qty (fst (optimize_allocations ex_fmt ex_lines_short [] []) ! 0) = 30"
proof -
  let ?m = "merge_external ex_lines_short [] []"
  have w: "''CE'' = ''CE'' \<or> ''CE'' = ''CW''" by simp
  have g: "filter (in_group ''CE'' ''R4'') ?m = hd ?m # tl ?m" by code_simp
  have c: "0 < odoo_on_hand (hd ?m)" "0 < odoo_available (hd ?m)"
    "odoo_available (hd ?m) < sum_list (map product_uom_qty (hd ?m # tl ?m))"
    by code_simp+
  have i: "0 < length ?m" "in_group ''CE'' ''R4'' (?m ! 0)" "product_uom_qty (?m ! 0) = 30"
    by code_simp+
  have t: "''D: '' @ dec (py_int (sum_list (map product_uom_qty (hd ?m # tl ?m)))) @
           '', Ava: '' @ dec (py_int (odoo_available (hd ?m))) = ''D: 50, Ava: 30''"
    by code_simp
  from shortage_annotation[OF w g c, of ex_fmt] i
  have "product_uom_qty (fst (optimize_allocations ex_fmt ex_lines_short [] []) ! 0) = 30"
    and "fst (optimize_allocations ex_fmt ex_lines_short [] []) ! 0 =
      (?m ! 0)\<lparr>flag_reason := Some ''Shortage'', shortage_details := Some ''D: 50, Ava: 30''\<rparr>"
    unfolding t by simp_all
  then show ?thesis by simp
qed

theorem merge_defaulting_witness:
  "hist_avg_sales (fst (optimize_allocations ex_fmt ex_lines_short [ex_hist] []) ! 1) = Some 0 \<and>
   store_on_hand (fst (optimize_allocations ex_fmt ex_lines_short [ex_hist] []) ! 1) = Some 0"
proof -
  let ?out = "fst (optimize_allocations ex_fmt ex_lines_short [ex_hist] [])"
  have "1 < length ?out" by code_simp
  then have mem: "?out ! 1 \<in> set ?out" by (rule nth_mem)
  have nh: "\<not> (\<exists>r \<in> set [ex_hist]. key_match (?out ! 1) r)" by code_simp
  have ns: "\<not> (\<exists>r \<in> set []. key_match (?out ! 1) r)" by simp
  have st: "\<forall>l \<in> set ex_lines_short. store_on_hand l = None \<or> store_on_hand l = Some 0"
    by code_simp
  from merge_defaulting[OF mem nh ns] st show ?thesis by simp
qed

end
